theory Spec2Isabelle
  imports Main "HOL-Library.AList" "HOL-Library.Multiset"
begin

section \<open>Python values\<close>

text \<open>
  The values that occur in table cells, in responses of the user function and in the
  generated output columns: \<^verbatim>\<open>None\<close>, booleans, integers, text, and the
  missing-value marker NaN that pandas puts where a record lacks a column.
\<close>

datatype pyval = PNone | PBool bool | PInt int | PStr string | PNaN

text \<open>Python's truth value of an object, as tested by \<^verbatim>\<open>if x\<close>.\<close>

fun truthy :: "pyval \<Rightarrow> bool" where
  "truthy PNone = False"
| "truthy (PBool b) = b"
| "truthy (PInt i) = (i \<noteq> 0)"
| "truthy (PStr s) = (s \<noteq> [])"
| "truthy PNaN = True"

subsection \<open>Decimal numerals\<close>

definition digit_char :: "nat \<Rightarrow> char" where
  "digit_char d = ''0123456789'' ! d"

function str_nat :: "nat \<Rightarrow> string" where
  "str_nat n = (if n < 10 then [digit_char n] else str_nat (n div 10) @ [digit_char (n mod 10)])"
  by pat_completeness auto
termination
  by (relation "measure id") auto

declare str_nat.simps [simp del]

definition str_int :: "int \<Rightarrow> string" where
  "str_int i = (if i < 0 then CHR ''-'' # str_nat (nat (- i)) else str_nat (nat i))"

text \<open>The value of a digit character and of a numeral, to read a rendering back.\<close>

definition digit_val :: "char \<Rightarrow> nat" where
  "digit_val c = of_char c - 48"

definition nat_of_str :: "string \<Rightarrow> nat" where
  "nat_of_str s = foldl (\<lambda>a c. 10 * a + digit_val c) 0 s"

subsection \<open>\<^verbatim>\<open>str\<close> and \<^verbatim>\<open>repr\<close>\<close>

text \<open>
  \<^verbatim>\<open>repr\<close> of a text: Python quotes with an apostrophe unless the text holds an
  apostrophe and no double quote; the quote and the backslash are escaped, line feed,
  carriage return and tab are written \<^verbatim>\<open>\n\<close>, \<^verbatim>\<open>\r\<close>, \<^verbatim>\<open>\t\<close>, and other control
  characters in hexadecimal.
\<close>

definition hex_char :: "nat \<Rightarrow> char" where
  "hex_char d = ''0123456789abcdef'' ! d"

definition escape_char :: "char \<Rightarrow> char \<Rightarrow> string" where
  "escape_char q c =
     (if c = CHR 0x5C then [CHR 0x5C, CHR 0x5C]
      else if c = q then [CHR 0x5C, q]
      else if c = CHR 0x0A then [CHR 0x5C, CHR ''n'']
      else if c = CHR 0x0D then [CHR 0x5C, CHR ''r'']
      else if c = CHR 0x09 then [CHR 0x5C, CHR ''t'']
      else if (of_char c :: nat) < 32 \<or> (of_char c :: nat) = 127
        then [CHR 0x5C, CHR ''x'', hex_char (of_char c div 16), hex_char (of_char c mod 16)]
      else [c])"

definition repr_str :: "string \<Rightarrow> string" where
  "repr_str s =
     (let q = (if CHR 0x27 \<in> set s \<and> CHR 0x22 \<notin> set s then CHR 0x22 else CHR 0x27)
      in q # concat (map (escape_char q) s) @ [q])"

fun py_str :: "pyval \<Rightarrow> string" where
  "py_str PNone = ''None''"
| "py_str (PBool b) = (if b then ''True'' else ''False'')"
| "py_str (PInt i) = str_int i"
| "py_str (PStr s) = s"
| "py_str PNaN = ''nan''"

fun py_repr :: "pyval \<Rightarrow> string" where
  "py_repr (PStr s) = repr_str s"
| "py_repr v = py_str v"

text \<open>\<^verbatim>\<open>str\<close> of a list and of a one-element tuple.\<close>

fun join_with :: "string \<Rightarrow> string list \<Rightarrow> string" where
  "join_with sep [] = []"
| "join_with sep [x] = x"
| "join_with sep (x # y # ys) = x @ sep @ join_with sep (y # ys)"

definition str_list :: "pyval list \<Rightarrow> string" where
  "str_list vs = ''['' @ join_with '', '' (map py_repr vs) @ '']''"

definition str_tuple1 :: "pyval \<Rightarrow> string" where
  "str_tuple1 v = ''('' @ py_repr v @ '',)''"

section \<open>Exceptions\<close>

text \<open>
  An exception object, by what the program observes of it: the classes it is an instance
  of (its own class first, then the ancestors; \<^verbatim>\<open>except\<close> matches against them),
  \<^verbatim>\<open>type(error).__qualname__\<close>, the name of the module \<^verbatim>\<open>inspect.getmodule\<close>
  finds for it (if any), \<^verbatim>\<open>str(error)\<close> and \<^verbatim>\<open>str(error.args)\<close>.
\<close>

record pyexc =
  exc_classes :: "string list"
  exc_qualname :: string
  exc_module :: "string option"
  exc_str :: string
  exc_args_str :: string

definition builtin_exc :: "string list \<Rightarrow> string \<Rightarrow> pyexc" where
  "builtin_exc classes msg =
     \<lparr>exc_classes = classes @ [''Exception'', ''BaseException''],
      exc_qualname = hd classes,
      exc_module = Some ''builtins'',
      exc_str = msg,
      exc_args_str = str_tuple1 (PStr msg)\<rparr>"

definition ValueError :: "string \<Rightarrow> pyexc" where
  "ValueError msg = builtin_exc [''ValueError''] msg"

definition TypeError :: "string \<Rightarrow> pyexc" where
  "TypeError msg = builtin_exc [''TypeError''] msg"

definition ZeroDivisionError :: "string \<Rightarrow> pyexc" where
  "ZeroDivisionError msg = builtin_exc [''ZeroDivisionError'', ''ArithmeticError''] msg"

text \<open>The message of a \<^verbatim>\<open>TypeError\<close> on \<^verbatim>\<open>None\<close>.\<close>

definition not_none :: "string \<Rightarrow> string" where
  "not_none what = [CHR 0x27] @ ''NoneType'' @ [CHR 0x27] @ '' object is not '' @ what"

text \<open>\<^verbatim>\<open>str\<close> of a \<^verbatim>\<open>KeyError\<close> is the \<^verbatim>\<open>repr\<close> of the missing key.\<close>

definition KeyError :: "string \<Rightarrow> pyexc" where
  "KeyError k = (builtin_exc [''KeyError'', ''LookupError''] k)\<lparr>exc_str := repr_str k\<rparr>"

text \<open>
  \<^verbatim>\<open>class BatchError(ValueError)\<close>, defined in the module of the parallelizer.
\<close>

definition BatchError :: "string \<Rightarrow> pyexc" where
  "BatchError msg =
     \<lparr>exc_classes = [''BatchError'', ''ValueError'', ''Exception'', ''BaseException''],
      exc_qualname = ''BatchError'',
      exc_module = Some ''dkulib.parallelizer.parallelizer'',
      exc_str = msg,
      exc_args_str = str_tuple1 (PStr msg)\<rparr>"

section \<open>Unique column names\<close>

text \<open>
  \<^verbatim>\<open>generate_unique\<close> of \<^verbatim>\<open>dkulib.io_utils.plugin_io_utils\<close> is imported by the
  parallelizer and is not among the sources. Section 4.2 of the spec gives it as: one name
  per logical output field, prefixed by a configurable string, "generated
  deterministically by appending/incrementing a suffix until no collision with existing
  names or previously generated names occurs".
\<close>

text \<open>
  Modelled from the spec: the candidate names of \<^verbatim>\<open>generate_unique\<close>, which is
  missing from the sources. The suffix appended to a name is an underscore and a number.
\<close>

definition suffixed :: "string \<Rightarrow> nat \<Rightarrow> string" where
  "suffixed base j = base @ ''_'' @ str_nat j"

lemma digit_val_digit_char: "d < 10 \<Longrightarrow> digit_val (digit_char d) = d"
proof -
  assume "d < 10"
  then have "d \<in> {0, 1, 2, 3, 4, 5, 6, 7, 8, 9}" by auto
  then show ?thesis by (auto simp: digit_val_def digit_char_def)
qed

lemma nat_of_str_snoc: "nat_of_str (s @ [c]) = 10 * nat_of_str s + digit_val c"
  by (simp add: nat_of_str_def)

lemma nat_of_str_str_nat: "nat_of_str (str_nat n) = n"
proof (induction n rule: str_nat.induct)
  case (1 n)
  show ?case
  proof (cases "n < 10")
    case True
    then show ?thesis
      by (subst str_nat.simps) (simp add: nat_of_str_def digit_val_digit_char)
  next
    case False
    then have "str_nat n = str_nat (n div 10) @ [digit_char (n mod 10)]"
      by (subst str_nat.simps) simp
    then show ?thesis
      using 1 False by (simp only: nat_of_str_snoc) (simp add: digit_val_digit_char)
  qed
qed

lemma str_nat_inj: "str_nat m = str_nat n \<Longrightarrow> m = n"
  by (metis nat_of_str_str_nat)

lemma suffixed_inj: "suffixed base j = suffixed base k \<Longrightarrow> j = k"
  by (simp add: suffixed_def str_nat_inj)

lemma finite_suffix_hits: "finite {k. suffixed base k \<in> set existing}"
proof -
  have "inj (suffixed base)" by (rule injI) (rule suffixed_inj)
  then have "finite (suffixed base -` set existing)" by (intro finite_vimageI) simp_all
  then show ?thesis by (simp add: vimage_def)
qed

text \<open>
  Modelled from the spec: the loop of \<^verbatim>\<open>generate_unique\<close>, which is missing from the
  sources. The suffix is incremented until the name collides with no existing name. The
  search ends because the suffixed names are pairwise different and only finitely many
  names exist.
\<close>

function next_free :: "string \<Rightarrow> string list \<Rightarrow> nat \<Rightarrow> string" where
  "next_free base existing j =
     (if suffixed base j \<in> set existing then next_free base existing (Suc j)
      else suffixed base j)"
  by pat_completeness auto
termination
proof (relation "measure (\<lambda>(base, existing, j). card {k. j \<le> k \<and> suffixed base k \<in> set existing})")
  show "wf (measure (\<lambda>(base, existing, j). card {k. j \<le> k \<and> suffixed base k \<in> set existing}))"
    by simp
next
  fix base :: string and existing :: "string list" and j :: nat
  assume hit: "suffixed base j \<in> set existing"
  let ?from = "\<lambda>i. {k. i \<le> k \<and> suffixed base k \<in> set existing}"
  have fin: "finite (?from j)"
    by (rule finite_subset [OF _ finite_suffix_hits [of base existing]]) auto
  have "?from (Suc j) \<subset> ?from j"
  proof
    show "?from (Suc j) \<subseteq> ?from j" by auto
    have "j \<in> ?from j" using hit by simp
    moreover have "j \<notin> ?from (Suc j)" by simp
    ultimately show "?from (Suc j) \<noteq> ?from j" by blast
  qed
  then have "card (?from (Suc j)) < card (?from j)"
    using fin by (rule psubset_card_mono [rotated])
  then show "((base, existing, Suc j), (base, existing, j))
      \<in> measure (\<lambda>(base, existing, j). card {k. j \<le> k \<and> suffixed base k \<in> set existing})"
    by simp
qed

declare next_free.simps [simp del]

text \<open>
  Modelled from the spec: \<^verbatim>\<open>generate_unique\<close>, which is missing from the sources.
  The prefixed name is tried first, then the prefixed name with the suffixes 1, 2, 3, ...
  in turn.
\<close>

definition generate_unique :: "string \<Rightarrow> string list \<Rightarrow> string \<Rightarrow> string" where
  "generate_unique name existing_names prefix =
     (let new_name = prefix @ ''_'' @ name
      in if new_name \<notin> set existing_names then new_name
         else next_free new_name existing_names 1)"

section \<open>The parallelizer\<close>

subsection \<open>Configuration\<close>

datatype ErrorHandling = LOG | FAIL

text \<open>
  A row as the user function sees it: a Python \<^verbatim>\<open>dict\<close> from column names to values,
  in insertion order. \<^verbatim>\<open>d[k] = v\<close> is \<^const>\<open>AList.update\<close> (an existing key keeps its
  place, a new key goes last) and \<^verbatim>\<open>d[k]\<close> is \<^const>\<open>map_of\<close>.
\<close>

type_synonym row = "(string \<times> pyval) list"

text \<open>
  \<^verbatim>\<open>OutputColumnNameTuple\<close>, the named tuple built from the keys of
  \<^verbatim>\<open>OUTPUT_COLUMN_NAME_DESCRIPTIONS\<close>.
\<close>

record OutputColumnNameTuple =
  response :: string
  error_message :: string
  error_type :: string
  error_raw :: string

text \<open>Iterating the named tuple yields its fields in order.\<close>

definition tuple_fields :: "OutputColumnNameTuple \<Rightarrow> string list" where
  "tuple_fields t = [response t, error_message t, error_type t, error_raw t]"

definition OUTPUT_COLUMN_NAME_DESCRIPTIONS :: "(string \<times> string) list" where
  "OUTPUT_COLUMN_NAME_DESCRIPTIONS =
     [(''response'', ''Raw response in JSON format''),
      (''error_message'', ''Error message''),
      (''error_type'', ''Error type or code''),
      (''error_raw'', ''Raw error'')]"

text \<open>
  The user function is called as \<^verbatim>\<open>function(row=row, **kwargs)\<close> or as
  \<^verbatim>\<open>function(batch=batch, **kwargs)\<close>; it returns a response or raises. The batch
  response parser is called with the batch, the response and the output column names; it
  returns the rows of the batch with their output columns filled in, or raises.
\<close>

datatype unit_arg = Row row | Batch "row list"

type_synonym user_function = "unit_arg \<Rightarrow> (string \<rightharpoonup> pyval) \<Rightarrow> pyexc + pyval"

type_synonym response_parser = "row list \<Rightarrow> pyval \<Rightarrow> OutputColumnNameTuple \<Rightarrow> pyexc + row list"

record ('f, 'p) DataFrameParallelizer =
  self_function :: 'f
  self_error_handling :: ErrorHandling
  self_exceptions_to_catch :: "string list"
  self_parallel_workers :: int
  self_batch_support :: bool
  self_batch_size :: int
  self_batch_response_parser :: "'p option"
  self_output_column_prefix :: string
  self_verbose :: bool

text \<open>
  The engine over values: its user function and its parser are functions of values. The
  record leaves the two types open, so that the engine can be given functions that act on
  a store of objects as well.
\<close>

type_synonym parallelizer = "(user_function, response_parser) DataFrameParallelizer"

text \<open>\<^verbatim>\<open>__init__\<close>: the two checks raise before the object exists.\<close>

definition init ::
  "user_function \<Rightarrow> ErrorHandling \<Rightarrow> string list \<Rightarrow> int \<Rightarrow> bool \<Rightarrow> int \<Rightarrow>
   response_parser option \<Rightarrow> string \<Rightarrow> bool \<Rightarrow> pyexc + parallelizer" where
  "init function error_handling exceptions_to_catch parallel_workers batch_support batch_size
        batch_response_parser output_column_prefix verbose =
     (if error_handling = LOG \<and> exceptions_to_catch = []
        then Inl (ValueError ''Please set at least one exception in exceptions_to_catch'')
      else if batch_support \<and> batch_response_parser = None
        then Inl (ValueError ''Please provide a valid batch_response_parser function'')
      else Inr \<lparr>self_function = function,
                self_error_handling = error_handling,
                self_exceptions_to_catch = exceptions_to_catch,
                self_parallel_workers = parallel_workers,
                self_batch_support = batch_support,
                self_batch_size = batch_size,
                self_batch_response_parser = batch_response_parser,
                self_output_column_prefix = output_column_prefix,
                self_verbose = verbose\<rparr>)"

definition get_unique_output_column_names ::
  "('f, 'p) DataFrameParallelizer \<Rightarrow> string list \<Rightarrow> OutputColumnNameTuple" where
  "get_unique_output_column_names self existing_names =
     (let names = map (\<lambda>column_name. generate_unique column_name existing_names
                          (self_output_column_prefix self))
                      (map fst OUTPUT_COLUMN_NAME_DESCRIPTIONS)
      in \<lparr>response = names ! 0, error_message = names ! 1,
          error_type = names ! 2, error_raw = names ! 3\<rparr>)"

subsection \<open>The worker wrapper\<close>

text \<open>
  What one invocation returns: the row with its output columns (row mode) or the rows of
  the batch (batch mode).
\<close>

datatype unit_result = ROut row | BOut "row list"

text \<open>The truth value of an optional argument: \<^verbatim>\<open>None\<close>, \<^verbatim>\<open>{}\<close> and \<^verbatim>\<open>[]\<close> are false.\<close>

definition provided :: "'a list option \<Rightarrow> bool" where
  "provided arg = (case arg of None \<Rightarrow> False | Some xs \<Rightarrow> xs \<noteq> [])"

text \<open>
  Lines 127-132: every output column is set to the empty text, in the row or in every row
  of the batch.
\<close>

definition init_row :: "OutputColumnNameTuple \<Rightarrow> row \<Rightarrow> row" where
  "init_row output_column_names output =
     fold (\<lambda>output_column. AList.update output_column (PStr []))
          (tuple_fields output_column_names) output"

definition init_batch :: "OutputColumnNameTuple \<Rightarrow> row list \<Rightarrow> row list" where
  "init_batch output_column_names output =
     fold (\<lambda>output_column. map (AList.update output_column (PStr [])))
          (tuple_fields output_column_names) output"

text \<open>
  The \<^verbatim>\<open>except\<close> clause matches an instance of a class of
  \<^verbatim>\<open>self.exceptions_to_catch + (BatchError,)\<close>.
\<close>

definition caught :: "('f, 'p) DataFrameParallelizer \<Rightarrow> pyexc \<Rightarrow> bool" where
  "caught self error =
     (set (self_exceptions_to_catch self @ [''BatchError'']) \<inter> set (exc_classes error) \<noteq> {})"

text \<open>Lines 154-157: the qualified name of the error's class.\<close>

definition error_type_of :: "pyexc \<Rightarrow> string" where
  "error_type_of error =
     (case exc_module error of
        None \<Rightarrow> exc_qualname error
      | Some module \<Rightarrow> module @ ''.'' @ exc_qualname error)"

text \<open>Lines 159-161 and 164-166: the three error columns of one row.\<close>

definition set_error :: "OutputColumnNameTuple \<Rightarrow> pyexc \<Rightarrow> row \<Rightarrow> row" where
  "set_error output_column_names error output_row =
     AList.update (error_raw output_column_names) (PStr (exc_args_str error))
       (AList.update (error_type output_column_names) (PStr (error_type_of error))
         (AList.update (error_message output_column_names) (PStr (exc_str error)) output_row))"

text \<open>
  Lines 148-166, the handler: an error that the clause does not match propagates; a
  matched one is raised again in fail mode and written into the output in log mode.
\<close>

definition handle_error ::
  "parallelizer \<Rightarrow> OutputColumnNameTuple \<Rightarrow> pyexc \<Rightarrow> unit_result \<Rightarrow> pyexc + unit_result" where
  "handle_error self output_column_names error output =
     (if \<not> caught self error then Inl error
      else if self_error_handling self = FAIL then Inl error
      else Inr (case output of
                  ROut r \<Rightarrow> ROut (set_error output_column_names error r)
                | BOut rs \<Rightarrow> BOut (map (set_error output_column_names error) rs)))"

text \<open>
  Lines 143-145: the error messages of the parsed rows that are true; a row without the
  column raises \<^verbatim>\<open>KeyError\<close>.
\<close>

fun collect_errors :: "string \<Rightarrow> row list \<Rightarrow> pyexc + pyval list" where
  "collect_errors column [] = Inr []"
| "collect_errors column (r # rs) =
     (case map_of r column of
        None \<Rightarrow> Inl (KeyError column)
      | Some v \<Rightarrow>
          (case collect_errors column rs of
             Inl e \<Rightarrow> Inl e
           | Inr errors \<Rightarrow> Inr (if truthy v then v # errors else errors)))"

text \<open>Lines 133-147 for a row: the response goes into the response column.\<close>

definition apply_row ::
  "parallelizer \<Rightarrow> OutputColumnNameTuple \<Rightarrow> row \<Rightarrow> (string \<rightharpoonup> pyval) \<Rightarrow> pyexc + unit_result" where
  "apply_row self output_column_names r function_kwargs =
     (let output = init_row output_column_names r
      in case self_function self (Row r) function_kwargs of
           Inl error \<Rightarrow> handle_error self output_column_names error (ROut output)
         | Inr resp \<Rightarrow> Inr (ROut (AList.update (response output_column_names) resp output)))"

text \<open>
  Lines 133-147 for a batch: the parser's rows replace the output; an error message in
  any of them raises \<^verbatim>\<open>BatchError\<close>.
\<close>

definition apply_batch ::
  "parallelizer \<Rightarrow> OutputColumnNameTuple \<Rightarrow> row list \<Rightarrow> (string \<rightharpoonup> pyval) \<Rightarrow> pyexc + unit_result" where
  "apply_batch self output_column_names b function_kwargs =
     (let output = BOut (init_batch output_column_names b)
      in case self_function self (Batch b) function_kwargs of
           Inl error \<Rightarrow> handle_error self output_column_names error output
         | Inr resp \<Rightarrow>
             (case self_batch_response_parser self of
                None \<Rightarrow>
                  handle_error self output_column_names
                    (TypeError (not_none ''callable'')) output
              | Some parser \<Rightarrow>
                  (case parser b resp output_column_names of
                     Inl error \<Rightarrow> handle_error self output_column_names error output
                   | Inr parsed \<Rightarrow>
                       (case collect_errors (error_message output_column_names) parsed of
                          Inl error \<Rightarrow> handle_error self output_column_names error (BOut parsed)
                        | Inr errors \<Rightarrow>
                            if errors \<noteq> []
                            then handle_error self output_column_names
                                   (BatchError (str_list errors)) (BOut parsed)
                            else Inr (BOut parsed)))))"

text \<open>
  \<^verbatim>\<open>_apply_function_and_parse_response\<close>. Line 124 refuses a row and a batch that are
  both true. Line 126 takes the row if it is true and the batch otherwise; with no batch
  the output is \<^verbatim>\<open>None\<close> and the loop of line 131 raises \<^verbatim>\<open>TypeError\<close>.
  \<^verbatim>\<open>deepcopy\<close> is the identity on values.
\<close>

definition apply_function_and_parse_response ::
  "parallelizer \<Rightarrow> OutputColumnNameTuple \<Rightarrow> row option \<Rightarrow> row list option \<Rightarrow>
   (string \<rightharpoonup> pyval) \<Rightarrow> pyexc + unit_result" where
  "apply_function_and_parse_response self output_column_names row batch function_kwargs =
     (if provided row \<and> provided batch
        then Inl (ValueError ''Please use either row or batch as arguments, but not both'')
      else if provided row
        then apply_row self output_column_names (the row) function_kwargs
      else case batch of
             None \<Rightarrow> Inl (TypeError (not_none ''iterable''))
           | Some b \<Rightarrow> apply_batch self output_column_names b function_kwargs)"

subsection \<open>Tables\<close>

text \<open>
  A \<^verbatim>\<open>DataFrame\<close>: its column labels and its rows of cells, one cell per column.
  The cells of a table of values are values.
\<close>

record 'c DataFrame =
  df_columns :: "string list"
  df_data :: "'c list list"

type_synonym table = "pyval DataFrame"

text \<open>
  \<^verbatim>\<open>Series.to_dict\<close> of one row of \<^verbatim>\<open>iterrows\<close>: the cells keyed by the column
  labels.
\<close>

definition to_dict :: "string list \<Rightarrow> pyval list \<Rightarrow> row" where
  "to_dict labels cells = fold (\<lambda>(k, v). AList.update k v) (zip labels cells) []"

text \<open>
  \<^verbatim>\<open>more_itertools.chunked\<close>: consecutive groups of \<open>n\<close> elements, the last one
  possibly shorter.
\<close>

function chunked :: "'a list \<Rightarrow> nat \<Rightarrow> 'a list list" where
  "chunked xs n = (if xs = [] \<or> n = 0 then [] else take n xs # chunked (drop n xs) n)"
  by pat_completeness auto
termination
  by (relation "measure (\<lambda>(xs, n). length xs)") auto

declare chunked.simps [simp del]

text \<open>
  \<^verbatim>\<open>as_completed\<close> yields every future once, in the order in which the threads
  finish. That order is the scheduler's choice and is a parameter here: the k-th number of
  \<open>completion\<close> picks, among the futures still pending, the one that finishes k-th; when
  the choices run out the remaining futures finish in the order of submission.
\<close>

function as_completed :: "nat list \<Rightarrow> 'a list \<Rightarrow> 'a list" where
  "as_completed completion [] = []"
| "as_completed [] (f # fs) = f # fs"
| "as_completed (p # ps) (f # fs) =
     (let i = p mod length (f # fs)
      in (f # fs) ! i # as_completed ps (take i (f # fs) @ drop (Suc i) (f # fs)))"
  by pat_completeness auto
termination
  by (relation "measure (\<lambda>(completion, fs). length fs)") auto

text \<open>
  Lines 242-243: \<^verbatim>\<open>future.result()\<close> returns the invocation's value or raises its
  exception; the first exception met ends the loop.
\<close>

fun collect_results :: "(pyexc + 'a) list \<Rightarrow> pyexc + 'a list" where
  "collect_results [] = Inr []"
| "collect_results (Inl e # fs) = Inl e"
| "collect_results (Inr x # fs) =
     (case collect_results fs of Inl e \<Rightarrow> Inl e | Inr xs \<Rightarrow> Inr (x # xs))"

text \<open>
  Line 244: in batch mode the results are lists of rows and \<^verbatim>\<open>flatten\<close> chains them; in
  row mode every result is one row.
\<close>

fun unit_rows :: "unit_result \<Rightarrow> row list" where
  "unit_rows (ROut r) = [r]"
| "unit_rows (BOut rs) = rs"

definition flatten :: "unit_result list \<Rightarrow> row list" where
  "flatten results = concat (map unit_rows results)"

text \<open>
  \<^verbatim>\<open>_convert_results_to_df\<close>. \<^verbatim>\<open>from_records\<close> and \<^verbatim>\<open>reindex\<close> give every record
  one cell per column of the input table and per output column, NaN where the record has
  no such key. \<^verbatim>\<open>astype\<close> turns the cells of the output columns into text with
  \<^verbatim>\<open>str\<close> and gives the input columns their own types back, which leaves their cells as
  they are. Then the raw error column is dropped unless verbose, and all error columns in
  fail mode. The index of the table and the types of its columns are not part of the
  model: the cells are taken cell by cell, where pandas would first find a common type
  for a column (a column of integers and missing values is shown by pandas as floats).
\<close>

definition record_cell :: "row \<Rightarrow> string \<Rightarrow> pyval" where
  "record_cell r column = (case map_of r column of None \<Rightarrow> PNaN | Some v \<Rightarrow> v)"

definition astype_cell :: "string list \<Rightarrow> string \<Rightarrow> pyval \<Rightarrow> pyval" where
  "astype_cell input_columns column v =
     (if column \<in> set input_columns then v else PStr (py_str v))"

definition dropped_columns :: "('f, 'p) DataFrameParallelizer \<Rightarrow> OutputColumnNameTuple \<Rightarrow> string list" where
  "dropped_columns self output_column_names =
     (if \<not> self_verbose self then [error_raw output_column_names] else []) @
     (if self_error_handling self = FAIL
        then [error_message output_column_names, error_type output_column_names,
              error_raw output_column_names]
      else [])"

definition convert_results_to_df ::
  "parallelizer \<Rightarrow> table \<Rightarrow> row list \<Rightarrow> OutputColumnNameTuple \<Rightarrow> table" where
  "convert_results_to_df self df results output_column_names =
     (let kept = filter (\<lambda>c. c \<notin> set (dropped_columns self output_column_names))
                   (df_columns df @ tuple_fields output_column_names)
      in \<lparr>df_columns = kept,
          df_data = map (\<lambda>r. map (\<lambda>c. astype_cell (df_columns df) c (record_cell r c)) kept)
                        results\<rparr>)"

subsection \<open>The run\<close>

text \<open>
  The keyword arguments of \<^verbatim>\<open>run\<close>: a caller may pass its own
  \<^verbatim>\<open>output_column_names\<close>, which line 225 lets replace the generated tuple in the
  invocations; \<open>kw_other\<close> holds the other keywords.
\<close>

record function_kwargs =
  kw_output_column_names :: "OutputColumnNameTuple option"
  kw_other :: "string \<rightharpoonup> pyval"

text \<open>Lines 225-229: the keywords forwarded to the user function.\<close>

definition pool_kwargs :: "('f, 'p) DataFrameParallelizer \<Rightarrow> function_kwargs \<Rightarrow> (string \<rightharpoonup> pyval)" where
  "pool_kwargs self kwargs =
     (let popped = (kw_other kwargs)(''function'' := None, ''row'' := None, ''batch'' := None,
                                     ''output_column_names'' := None)
      in if \<not> self_batch_support self then popped(''batch_response_parser'' := None)
         else popped)"

text \<open>
  Lines 211-219: the units of work, one per row, or one per group of \<^verbatim>\<open>batch_size\<close>
  consecutive rows in batch mode.
\<close>

definition work_units :: "parallelizer \<Rightarrow> table \<Rightarrow> unit_arg list" where
  "work_units self df =
     (let df_row_generator = map (to_dict (df_columns df)) (df_data df)
      in if self_batch_support self
         then map Batch (chunked df_row_generator (nat (self_batch_size self)))
         else map Row df_row_generator)"

text \<open>Lines 233-241: the invocation submitted for one unit.\<close>

fun submit ::
  "parallelizer \<Rightarrow> OutputColumnNameTuple \<Rightarrow> (string \<rightharpoonup> pyval) \<Rightarrow> unit_arg \<Rightarrow>
   pyexc + unit_result" where
  "submit self output_column_names kwargs (Row row) =
     apply_function_and_parse_response self output_column_names (Some row) None kwargs"
| "submit self output_column_names kwargs (Batch batch) =
     apply_function_and_parse_response self output_column_names None (Some batch) kwargs"

text \<open>
  Line 225: the generated tuple is the first entry of the pool's keywords and the caller's
  keywords are merged over it, so a caller's \<^verbatim>\<open>output_column_names\<close> wins.
\<close>

definition names_in_pool ::
  "('f, 'p) DataFrameParallelizer \<Rightarrow> 'c DataFrame \<Rightarrow> function_kwargs \<Rightarrow> OutputColumnNameTuple" where
  "names_in_pool self df kwargs =
     (case kw_output_column_names kwargs of
        None \<Rightarrow> get_unique_output_column_names self (df_columns df)
      | Some names \<Rightarrow> names)"

text \<open>
  \<^verbatim>\<open>run\<close>, with the order of completion as a parameter. Line 220 divides by the batch
  size; the executor refuses a worker count below one; \<^verbatim>\<open>chunked\<close> refuses a negative
  size when the first batch is drawn. Progress and logging are left out.
\<close>

definition run ::
  "parallelizer \<Rightarrow> nat list \<Rightarrow> table \<Rightarrow> function_kwargs \<Rightarrow> pyexc + table" where
  "run self completion df kwargs =
     (if self_batch_support self \<and> self_batch_size self = 0
        then Inl (ZeroDivisionError ''division by zero'')
      else
        let output_column_names = get_unique_output_column_names self (df_columns df)
        in if self_parallel_workers self \<le> 0
             then Inl (ValueError ''max_workers must be greater than 0'')
           else if self_batch_support self \<and> self_batch_size self < 0
             then Inl (ValueError ''Stop argument for islice() must be None or an integer'')
           else
             let futures = map (submit self (names_in_pool self df kwargs)
                                       (pool_kwargs self kwargs))
                               (work_units self df)
             in case collect_results (as_completed completion futures) of
                  Inl error \<Rightarrow> Inl error
                | Inr results \<Rightarrow>
                    Inr (convert_results_to_df self df (flatten results) output_column_names))"



fun is_populated :: "pyval option \<Rightarrow> bool" where
  "is_populated (Some (PStr s)) = (s \<noteq> [])"
| "is_populated v = False"

section \<open>Objects and aliasing\<close>

text \<open>
  In the model above a row is a value, and a copy of it cannot be told from the original.
  Whether the engine or the user function can change the input table depends on which
  objects they hold, so the same code is modelled once more over a store of mutable
  objects. A cell holds an immutable value or the address of an object; the objects are
  Python lists of immutable values, kept in a store in which the address is the position.
  \<^verbatim>\<open>to_dict\<close> puts the cells of a table row into a new dictionary as they are, so the
  dictionary refers to the very objects of the table. The dictionaries and batch lists
  themselves stay values: the table never refers to them.
\<close>

type_synonym addr = nat

datatype cellv = Imm pyval | Obj addr

type_synonym store = "pyval list list"

type_synonym orow = "(string \<times> cellv) list"

datatype ounit_arg = ORow orow | OBatch "orow list"

datatype ounit_result = OROut orow | OBOut "orow list"

text \<open>
  The user function and the parser may read and change the store: they take the store
  and return it with their result.
\<close>

type_synonym ofunction =
  "ounit_arg \<Rightarrow> (string \<rightharpoonup> pyval) \<Rightarrow> store \<Rightarrow> (pyexc + cellv) \<times> store"

type_synonym oparser =
  "orow list \<Rightarrow> cellv \<Rightarrow> OutputColumnNameTuple \<Rightarrow> store \<Rightarrow> (pyexc + orow list) \<times> store"

type_synonym oparallelizer = "(ofunction, oparser) DataFrameParallelizer"

text \<open>
  Truth value, \<^verbatim>\<open>str\<close> and \<^verbatim>\<open>repr\<close> of a cell; those of an object are those of the
  list it holds at the time.
\<close>

fun o_truthy :: "store \<Rightarrow> cellv \<Rightarrow> bool" where
  "o_truthy st (Imm v) = truthy v"
| "o_truthy st (Obj a) = (st ! a \<noteq> [])"

fun o_str :: "store \<Rightarrow> cellv \<Rightarrow> string" where
  "o_str st (Imm v) = py_str v"
| "o_str st (Obj a) = str_list (st ! a)"

fun o_repr :: "store \<Rightarrow> cellv \<Rightarrow> string" where
  "o_repr st (Imm v) = py_repr v"
| "o_repr st (Obj a) = str_list (st ! a)"

definition o_str_list :: "store \<Rightarrow> cellv list \<Rightarrow> string" where
  "o_str_list st vs = ''['' @ join_with '', '' (map (o_repr st) vs) @ '']''"

text \<open>
  \<^verbatim>\<open>deepcopy\<close> (line 126): an immutable value is shared, an object is copied into a new
  object at the end of the store. The copy of a row holds the copies of its cells.
\<close>

fun copy_cell :: "cellv \<Rightarrow> store \<Rightarrow> cellv \<times> store" where
  "copy_cell (Imm v) st = (Imm v, st)"
| "copy_cell (Obj a) st = (Obj (length st), st @ [st ! a])"

fun deepcopy_row :: "orow \<Rightarrow> store \<Rightarrow> orow \<times> store" where
  "deepcopy_row [] st = ([], st)"
| "deepcopy_row ((k, c) # r) st =
     (case copy_cell c st of
        (c', st1) \<Rightarrow> (case deepcopy_row r st1 of (r', st2) \<Rightarrow> ((k, c') # r', st2)))"

fun deepcopy_batch :: "orow list \<Rightarrow> store \<Rightarrow> orow list \<times> store" where
  "deepcopy_batch [] st = ([], st)"
| "deepcopy_batch (r # b) st =
     (case deepcopy_row r st of
        (r', st1) \<Rightarrow> (case deepcopy_batch b st1 of (b', st2) \<Rightarrow> (r' # b', st2)))"

text \<open>Lines 127-132 and 148-166 as above, the texts written as immutable cells.\<close>

definition o_init_row :: "OutputColumnNameTuple \<Rightarrow> orow \<Rightarrow> orow" where
  "o_init_row output_column_names output =
     fold (\<lambda>output_column. AList.update output_column (Imm (PStr [])))
          (tuple_fields output_column_names) output"

definition o_init_batch :: "OutputColumnNameTuple \<Rightarrow> orow list \<Rightarrow> orow list" where
  "o_init_batch output_column_names output =
     fold (\<lambda>output_column. map (AList.update output_column (Imm (PStr []))))
          (tuple_fields output_column_names) output"

definition o_set_error :: "OutputColumnNameTuple \<Rightarrow> pyexc \<Rightarrow> orow \<Rightarrow> orow" where
  "o_set_error output_column_names error output_row =
     AList.update (error_raw output_column_names) (Imm (PStr (exc_args_str error)))
       (AList.update (error_type output_column_names) (Imm (PStr (error_type_of error)))
         (AList.update (error_message output_column_names) (Imm (PStr (exc_str error)))
            output_row))"

definition o_handle_error ::
  "oparallelizer \<Rightarrow> OutputColumnNameTuple \<Rightarrow> pyexc \<Rightarrow> ounit_result \<Rightarrow> pyexc + ounit_result" where
  "o_handle_error self output_column_names error output =
     (if \<not> caught self error then Inl error
      else if self_error_handling self = FAIL then Inl error
      else Inr (case output of
                  OROut r \<Rightarrow> OROut (o_set_error output_column_names error r)
                | OBOut rs \<Rightarrow> OBOut (map (o_set_error output_column_names error) rs)))"

fun o_collect_errors :: "store \<Rightarrow> string \<Rightarrow> orow list \<Rightarrow> pyexc + cellv list" where
  "o_collect_errors st column [] = Inr []"
| "o_collect_errors st column (r # rs) =
     (case map_of r column of
        None \<Rightarrow> Inl (KeyError column)
      | Some v \<Rightarrow>
          (case o_collect_errors st column rs of
             Inl e \<Rightarrow> Inl e
           | Inr errors \<Rightarrow> Inr (if o_truthy st v then v # errors else errors)))"

text \<open>
  Lines 126-167 for a row and for a batch. The output is the deep copy, made first; the
  user function is then called on the row or batch itself (line 135), and the parser on
  the batch itself (line 140), each with the store of that moment. The results are written
  into the copy, or into the rows the parser returned.
\<close>

definition o_apply_row ::
  "oparallelizer \<Rightarrow> OutputColumnNameTuple \<Rightarrow> orow \<Rightarrow> (string \<rightharpoonup> pyval) \<Rightarrow> store \<Rightarrow>
   (pyexc + ounit_result) \<times> store" where
  "o_apply_row self output_column_names r function_kwargs st =
     (case deepcopy_row r st of
        (copy, st1) \<Rightarrow>
          (let output = o_init_row output_column_names copy
           in case self_function self (ORow r) function_kwargs st1 of
                (Inl error, st2) \<Rightarrow>
                  (o_handle_error self output_column_names error (OROut output), st2)
              | (Inr resp, st2) \<Rightarrow>
                  (Inr (OROut (AList.update (response output_column_names) resp output)), st2)))"

definition o_apply_batch ::
  "oparallelizer \<Rightarrow> OutputColumnNameTuple \<Rightarrow> orow list \<Rightarrow> (string \<rightharpoonup> pyval) \<Rightarrow> store \<Rightarrow>
   (pyexc + ounit_result) \<times> store" where
  "o_apply_batch self output_column_names b function_kwargs st =
     (case deepcopy_batch b st of
        (copy, st1) \<Rightarrow>
          (let output = OBOut (o_init_batch output_column_names copy)
           in case self_function self (OBatch b) function_kwargs st1 of
                (Inl error, st2) \<Rightarrow> (o_handle_error self output_column_names error output, st2)
              | (Inr resp, st2) \<Rightarrow>
                  (case self_batch_response_parser self of
                     None \<Rightarrow>
                       (o_handle_error self output_column_names
                          (TypeError (not_none ''callable'')) output, st2)
                   | Some parser \<Rightarrow>
                       (case parser b resp output_column_names st2 of
                          (Inl error, st3) \<Rightarrow>
                            (o_handle_error self output_column_names error output, st3)
                        | (Inr parsed, st3) \<Rightarrow>
                            (case o_collect_errors st3 (error_message output_column_names) parsed of
                               Inl error \<Rightarrow>
                                 (o_handle_error self output_column_names error (OBOut parsed), st3)
                             | Inr errors \<Rightarrow>
                                 if errors \<noteq> []
                                 then (o_handle_error self output_column_names
                                         (BatchError (o_str_list st3 errors)) (OBOut parsed), st3)
                                 else (Inr (OBOut parsed), st3))))))"

definition o_apply_function_and_parse_response ::
  "oparallelizer \<Rightarrow> OutputColumnNameTuple \<Rightarrow> orow option \<Rightarrow> orow list option \<Rightarrow>
   (string \<rightharpoonup> pyval) \<Rightarrow> store \<Rightarrow> (pyexc + ounit_result) \<times> store" where
  "o_apply_function_and_parse_response self output_column_names row batch function_kwargs st =
     (if provided row \<and> provided batch
        then (Inl (ValueError ''Please use either row or batch as arguments, but not both''), st)
      else if provided row
        then o_apply_row self output_column_names (the row) function_kwargs st
      else case batch of
             None \<Rightarrow> (Inl (TypeError (not_none ''iterable'')), st)
           | Some b \<Rightarrow> o_apply_batch self output_column_names b function_kwargs st)"

text \<open>The units, their invocations and the assembled table, as above.\<close>

definition o_to_dict :: "string list \<Rightarrow> cellv list \<Rightarrow> orow" where
  "o_to_dict labels cells = fold (\<lambda>(k, v). AList.update k v) (zip labels cells) []"

definition o_work_units :: "oparallelizer \<Rightarrow> cellv DataFrame \<Rightarrow> ounit_arg list" where
  "o_work_units self df =
     (let df_row_generator = map (o_to_dict (df_columns df)) (df_data df)
      in if self_batch_support self
         then map OBatch (chunked df_row_generator (nat (self_batch_size self)))
         else map ORow df_row_generator)"

fun o_submit ::
  "oparallelizer \<Rightarrow> OutputColumnNameTuple \<Rightarrow> (string \<rightharpoonup> pyval) \<Rightarrow> ounit_arg \<Rightarrow> store \<Rightarrow>
   (pyexc + ounit_result) \<times> store" where
  "o_submit self output_column_names kwargs (ORow row) st =
     o_apply_function_and_parse_response self output_column_names (Some row) None kwargs st"
| "o_submit self output_column_names kwargs (OBatch batch) st =
     o_apply_function_and_parse_response self output_column_names None (Some batch) kwargs st"

fun o_unit_rows :: "ounit_result \<Rightarrow> orow list" where
  "o_unit_rows (OROut r) = [r]"
| "o_unit_rows (OBOut rs) = rs"

definition o_record_cell :: "orow \<Rightarrow> string \<Rightarrow> cellv" where
  "o_record_cell r column = (case map_of r column of None \<Rightarrow> Imm PNaN | Some v \<Rightarrow> v)"

definition o_astype_cell :: "store \<Rightarrow> string list \<Rightarrow> string \<Rightarrow> cellv \<Rightarrow> cellv" where
  "o_astype_cell st input_columns column v =
     (if column \<in> set input_columns then v else Imm (PStr (o_str st v)))"

definition o_convert_results_to_df ::
  "oparallelizer \<Rightarrow> cellv DataFrame \<Rightarrow> orow list \<Rightarrow> OutputColumnNameTuple \<Rightarrow> store \<Rightarrow>
   cellv DataFrame" where
  "o_convert_results_to_df self df results output_column_names st =
     (let kept = filter (\<lambda>c. c \<notin> set (dropped_columns self output_column_names))
                   (df_columns df @ tuple_fields output_column_names)
      in \<lparr>df_columns = kept,
          df_data = map (\<lambda>r. map (\<lambda>c. o_astype_cell st (df_columns df) c (o_record_cell r c))
                                  kept)
                        results\<rparr>)"

text \<open>
  The invocations act on one store. They are taken to run one after the other, in the
  order in which they complete; every invocation runs, also after one has raised, since
  the executor cancels nothing.
\<close>

fun run_all :: "('u \<Rightarrow> store \<Rightarrow> 'r \<times> store) \<Rightarrow> 'u list \<Rightarrow> store \<Rightarrow> 'r list \<times> store" where
  "run_all invoke [] st = ([], st)"
| "run_all invoke (u # us) st =
     (case invoke u st of
        (r, st1) \<Rightarrow> (case run_all invoke us st1 of (rs, st2) \<Rightarrow> (r # rs, st2)))"

text \<open>
  \<^verbatim>\<open>run\<close> over the store: it returns the table or the exception, and the store as the
  invocations left it.
\<close>

definition o_run ::
  "oparallelizer \<Rightarrow> nat list \<Rightarrow> cellv DataFrame \<Rightarrow> function_kwargs \<Rightarrow> store \<Rightarrow>
   (pyexc + cellv DataFrame) \<times> store" where
  "o_run self completion df kwargs st =
     (if self_batch_support self \<and> self_batch_size self = 0
        then (Inl (ZeroDivisionError ''division by zero''), st)
      else
        let output_column_names = get_unique_output_column_names self (df_columns df)
        in if self_parallel_workers self \<le> 0
             then (Inl (ValueError ''max_workers must be greater than 0''), st)
           else if self_batch_support self \<and> self_batch_size self < 0
             then (Inl (ValueError ''Stop argument for islice() must be None or an integer''), st)
           else
             case run_all (o_submit self (names_in_pool self df kwargs) (pool_kwargs self kwargs))
                          (as_completed completion (o_work_units self df)) st of
               (futures, st') \<Rightarrow>
                 (case collect_results futures of
                    Inl error \<Rightarrow> (Inl error, st')
                  | Inr results \<Rightarrow>
                      (Inr (o_convert_results_to_df self df (concat (map o_unit_rows results))
                              output_column_names st'), st')))"

text \<open>
  The objects of a table are those its cells refer to. A step from one store to another
  preserves a set of objects when each of them that exists before still exists after and
  holds the same list. A user function and a parser leave a set of objects alone when
  every call of theirs preserves it.
\<close>

definition table_objects :: "cellv DataFrame \<Rightarrow> addr set" where
  "table_objects df = {a. \<exists>cells\<in>set (df_data df). Obj a \<in> set cells}"

definition preserved :: "addr set \<Rightarrow> store \<Rightarrow> store \<Rightarrow> bool" where
  "preserved A st st' = (\<forall>a\<in>A. a < length st \<longrightarrow> a < length st' \<and> st' ! a = st ! a)"

definition leaves_alone :: "oparallelizer \<Rightarrow> addr set \<Rightarrow> bool" where
  "leaves_alone self A =
     ((\<forall>u kw st. preserved A st (snd (self_function self u kw st))) \<and>
      (case self_batch_response_parser self of
         None \<Rightarrow> True
       | Some parser \<Rightarrow> (\<forall>b resp names st. preserved A st (snd (parser b resp names st)))))"

text \<open>
  A table of values is a table over the store whose cells are all immutable, and a user
  function or parser of values is one over the store that leaves the store as it is. With
  these the engine over the store can be compared with the engine over values.
\<close>

definition lift_row :: "row \<Rightarrow> orow" where
  "lift_row r = map (\<lambda>(k, v). (k, Imm v)) r"

fun lower_cell :: "cellv \<Rightarrow> pyval" where
  "lower_cell (Imm v) = v"
| "lower_cell (Obj a) = PNaN"

definition lower_row :: "orow \<Rightarrow> row" where
  "lower_row r = map (\<lambda>(k, c). (k, lower_cell c)) r"

fun lower_unit :: "ounit_arg \<Rightarrow> unit_arg" where
  "lower_unit (ORow r) = Row (lower_row r)"
| "lower_unit (OBatch b) = Batch (map lower_row b)"

fun lift_unit :: "unit_arg \<Rightarrow> ounit_arg" where
  "lift_unit (Row r) = ORow (lift_row r)"
| "lift_unit (Batch b) = OBatch (map lift_row b)"

fun lift_result :: "unit_result \<Rightarrow> ounit_result" where
  "lift_result (ROut r) = OROut (lift_row r)"
| "lift_result (BOut rs) = OBOut (map lift_row rs)"

definition lift_function :: "user_function \<Rightarrow> ofunction" where
  "lift_function f u kw st = (map_sum id Imm (f (lower_unit u) kw), st)"

definition lift_parser :: "response_parser \<Rightarrow> oparser" where
  "lift_parser p b resp names st =
     (map_sum id (map lift_row) (p (map lower_row b) (lower_cell resp) names), st)"

definition lift_parallelizer :: "parallelizer \<Rightarrow> oparallelizer" where
  "lift_parallelizer self =
     \<lparr>self_function = lift_function (self_function self),
      self_error_handling = self_error_handling self,
      self_exceptions_to_catch = self_exceptions_to_catch self,
      self_parallel_workers = self_parallel_workers self,
      self_batch_support = self_batch_support self,
      self_batch_size = self_batch_size self,
      self_batch_response_parser = map_option lift_parser (self_batch_response_parser self),
      self_output_column_prefix = self_output_column_prefix self,
      self_verbose = self_verbose self\<rparr>"

definition lift_table :: "table \<Rightarrow> cellv DataFrame" where
  "lift_table df = \<lparr>df_columns = df_columns df, df_data = map (map Imm) (df_data df)\<rparr>"

section \<open>Notions for the claims\<close>

text \<open>The rows a unit holds.\<close>

fun unit_input :: "unit_arg \<Rightarrow> row list" where
  "unit_input (Row r) = [r]"
| "unit_input (Batch b) = b"

text \<open>
  The contract of the batch response parser (sections 4.3 and 6 of the spec): what it
  returns has as many rows as the batch it was given.
\<close>

definition keeps_length :: "parallelizer \<Rightarrow> bool" where
  "keeps_length self =
     (case self_batch_response_parser self of
        None \<Rightarrow> True
      | Some parser \<Rightarrow>
          (\<forall>b resp names. case parser b resp names of
                             Inl e \<Rightarrow> True
                           | Inr rows \<Rightarrow> length rows = length b))"






section \<open>Examples\<close>

text \<open>
  The table of three rows of the spec, a user function that answers \<^verbatim>\<open>"ok-<id>"\<close> and
  raises \<^verbatim>\<open>ValueError\<close> on the second row, and a parallelizer with the defaults of
  the class that catches \<^verbatim>\<open>ValueError\<close>.
\<close>

definition three_rows :: table where
  "three_rows = \<lparr>df_columns = [''id''], df_data = [[PStr ''1''], [PStr ''2''], [PStr ''3'']]\<rparr>"

definition ok_unless_2 :: user_function where
  "ok_unless_2 u kwargs =
     (case u of
        Row r \<Rightarrow>
          (case map_of r ''id'' of
             Some v \<Rightarrow> if v = PStr ''2'' then Inl (ValueError ''bad id'')
                       else Inr (PStr (''ok-'' @ py_str v))
           | None \<Rightarrow> Inr PNone)
      | Batch b \<Rightarrow> Inr (PStr ''ok''))"

definition log_parallelizer :: parallelizer where
  "log_parallelizer =
     \<lparr>self_function = ok_unless_2, self_error_handling = LOG,
      self_exceptions_to_catch = [''ValueError''], self_parallel_workers = 4,
      self_batch_support = False, self_batch_size = 10, self_batch_response_parser = None,
      self_output_column_prefix = ''output'', self_verbose = False\<rparr>"

definition no_kwargs :: function_kwargs where
  "no_kwargs = \<lparr>kw_output_column_names = None, kw_other = Map.empty\<rparr>"


text \<open>
  Batch mode with batches of two rows. The first parser writes the response into every
  row and leaves the error message empty; the second one flags the row with id 2.
\<close>

definition echo_parser :: response_parser where
  "echo_parser b resp names =
     Inr (map (\<lambda>r. AList.update (error_message names) (PStr [])
                      (AList.update (response names) resp r)) b)"

definition batch_parallelizer :: parallelizer where
  "batch_parallelizer =
     log_parallelizer\<lparr>self_batch_support := True, self_batch_size := 2,
                      self_batch_response_parser := Some echo_parser\<rparr>"

definition flagging_parser :: response_parser where
  "flagging_parser b resp names =
     Inr (map (\<lambda>r. AList.update (error_message names)
                       (if map_of r ''id'' = Some (PStr ''2'') then PStr ''bad id'' else PStr [])
                       (AList.update (response names) resp r)) b)"

definition plain_names :: OutputColumnNameTuple where
  "plain_names = \<lparr>response = ''output_response'', error_message = ''output_error_message'',
        error_type = ''output_error_type'', error_raw = ''output_error_raw''\<rparr>"

text \<open>
  A table with one cell that holds a list object, a user function that appends to the
  list it finds in its row, and one that leaves the store as it is.
\<close>

definition list_table :: "cellv DataFrame" where
  "list_table = \<lparr>df_columns = [''x''], df_data = [[Obj 0]]\<rparr>"

definition appending :: ofunction where
  "appending u kwargs st =
     (case u of
        ORow r \<Rightarrow>
          (case map_of r ''x'' of
             Some (Obj a) \<Rightarrow> (Inr (Imm (PStr ''ok'')), st[a := st ! a @ [PInt 1]])
           | _ \<Rightarrow> (Inr (Imm (PStr ''ok'')), st))
      | OBatch b \<Rightarrow> (Inr (Imm (PStr ''ok'')), st))"

definition appending_parallelizer :: oparallelizer where
  "appending_parallelizer =
     \<lparr>self_function = appending, self_error_handling = LOG,
      self_exceptions_to_catch = [''ValueError''], self_parallel_workers = 4,
      self_batch_support = False, self_batch_size = 10, self_batch_response_parser = None,
      self_output_column_prefix = ''output'', self_verbose = False\<rparr>"

definition answering :: ofunction where
  "answering u kwargs st = (Inr (Imm (PStr ''ok'')), st)"

definition answering_parallelizer :: oparallelizer where
  "answering_parallelizer = appending_parallelizer\<lparr>self_function := answering\<rparr>"

section \<open>Properties of the output column names\<close>

lemma next_free_notin: "next_free base existing j \<notin> set existing"
proof (induction base existing j rule: next_free.induct)
  case (1 base existing j)
  show ?case
  proof (cases "suffixed base j \<in> set existing")
    case True
    then show ?thesis using 1 by (subst next_free.simps) simp
  next
    case False
    then show ?thesis by (subst next_free.simps) simp
  qed
qed

lemma next_free_form: "\<exists>k. next_free base existing j = suffixed base k"
proof (induction base existing j rule: next_free.induct)
  case (1 base existing j)
  show ?case
  proof (cases "suffixed base j \<in> set existing")
    case True
    then show ?thesis using 1 by (subst next_free.simps) simp
  next
    case False
    then show ?thesis by (subst next_free.simps) auto
  qed
qed

lemma generate_unique_notin: "generate_unique name existing prefix \<notin> set existing"
  by (simp add: generate_unique_def Let_def next_free_notin)

lemma generate_unique_form:
  "\<exists>t. generate_unique name existing prefix = prefix @ ''_'' @ name @ t"
proof (cases "prefix @ ''_'' @ name \<in> set existing")
  case True
  obtain k where
    "next_free (prefix @ ''_'' @ name) existing 1 = suffixed (prefix @ ''_'' @ name) k"
    using next_free_form by blast
  then show ?thesis using True by (simp add: generate_unique_def suffixed_def)
next
  case False
  then show ?thesis by (simp add: generate_unique_def)
qed

lemma generated_names:
  "\<exists>a b c d. get_unique_output_column_names self existing =
     \<lparr>response = self_output_column_prefix self @ ''_response'' @ a,
      error_message = self_output_column_prefix self @ ''_error_message'' @ b,
      error_type = self_output_column_prefix self @ ''_error_type'' @ c,
      error_raw = self_output_column_prefix self @ ''_error_raw'' @ d\<rparr>"
proof -
  let ?p = "self_output_column_prefix self"
  obtain a where a: "generate_unique ''response'' existing ?p = ?p @ ''_'' @ ''response'' @ a"
    using generate_unique_form by blast
  obtain b where b:
    "generate_unique ''error_message'' existing ?p = ?p @ ''_'' @ ''error_message'' @ b"
    using generate_unique_form by blast
  obtain c where c:
    "generate_unique ''error_type'' existing ?p = ?p @ ''_'' @ ''error_type'' @ c"
    using generate_unique_form by blast
  obtain d where d: "generate_unique ''error_raw'' existing ?p = ?p @ ''_'' @ ''error_raw'' @ d"
    using generate_unique_form by blast
  show ?thesis
    by (simp add: get_unique_output_column_names_def OUTPUT_COLUMN_NAME_DESCRIPTIONS_def a b c d)
qed

lemma generated_distinct:
  "distinct (tuple_fields (get_unique_output_column_names self existing))"
proof -
  obtain a b c d where "get_unique_output_column_names self existing =
     \<lparr>response = self_output_column_prefix self @ ''_response'' @ a,
      error_message = self_output_column_prefix self @ ''_error_message'' @ b,
      error_type = self_output_column_prefix self @ ''_error_type'' @ c,
      error_raw = self_output_column_prefix self @ ''_error_raw'' @ d\<rparr>"
    using generated_names by blast
  then show ?thesis by (simp add: tuple_fields_def)
qed

lemma generated_fresh:
  "set (tuple_fields (get_unique_output_column_names self existing)) \<inter> set existing = {}"
  by (simp add: tuple_fields_def get_unique_output_column_names_def
      OUTPUT_COLUMN_NAME_DESCRIPTIONS_def generate_unique_notin)

section \<open>Lists, schedules and dictionaries\<close>

lemma remove_nth_mset:
  "i < length xs \<Longrightarrow> add_mset (xs ! i) (mset (take i xs @ drop (Suc i) xs)) = mset xs"
proof -
  assume "i < length xs"
  then have "xs = take i xs @ xs ! i # drop (Suc i) xs" by (rule id_take_nth_drop)
  then have "mset xs = mset (take i xs @ xs ! i # drop (Suc i) xs)" by simp
  then show ?thesis by simp
qed

lemma mset_as_completed: "mset (as_completed completion fs) = mset fs"
proof (induction completion fs rule: as_completed.induct)
  case (3 p ps f fs)
  let ?i = "p mod length (f # fs)"
  have i: "?i < length (f # fs)" by simp
  have "mset (as_completed (p # ps) (f # fs)) =
        add_mset ((f # fs) ! ?i) (mset (take ?i (f # fs) @ drop (Suc ?i) (f # fs)))"
    using 3 by (simp add: Let_def)
  also have "\<dots> = mset (f # fs)" using i by (rule remove_nth_mset)
  finally show ?case .
qed simp_all

lemma set_as_completed: "set (as_completed completion fs) = set fs"
  using mset_as_completed [of completion fs] by (metis set_mset_mset)


lemma as_completed_map: "as_completed completion (map g fs) = map g (as_completed completion fs)"
proof (induction completion fs rule: as_completed.induct)
  case (3 p ps f fs)
  let ?i = "p mod length (f # fs)"
  have i: "?i < length (f # fs)" by simp
  have "as_completed (p # ps) (map g (f # fs)) =
        (map g (f # fs)) ! ?i # as_completed ps (take ?i (map g (f # fs)) @ drop (Suc ?i) (map g (f # fs)))"
    by (simp add: Let_def)
  also have "\<dots> = g ((f # fs) ! ?i) # as_completed ps (map g (take ?i (f # fs) @ drop (Suc ?i) (f # fs)))"
    using i by (simp only: nth_map take_map drop_map map_append)
  also have "\<dots> = map g (as_completed (p # ps) (f # fs))"
    using 3 by (simp add: Let_def)
  finally show ?case .
qed simp_all



lemma sum_list_as_completed:
  "sum_list (map g (as_completed completion xs)) = (sum_list (map g xs) :: nat)"
proof -
  have "mset (map g (as_completed completion xs)) = mset (map g xs)"
    by (simp add: mset_as_completed)
  then show ?thesis by (metis sum_mset_sum_list)
qed


lemma collect_results_Inr: "collect_results fs = Inr xs \<Longrightarrow> fs = map Inr xs"
proof (induction fs arbitrary: xs rule: collect_results.induct)
  case (3 x fs)
  then show ?case by (auto split: sum.splits)
qed simp_all

lemma collect_results_Inl: "collect_results fs = Inl e \<Longrightarrow> Inl e \<in> set fs"
proof (induction fs rule: collect_results.induct)
  case (3 x fs)
  then show ?case by (auto split: sum.splits)
qed simp_all

lemma collect_results_fails: "Inl e \<in> set fs \<Longrightarrow> \<exists>e'. collect_results fs = Inl e'"
proof (induction fs rule: collect_results.induct)
  case (3 x fs)
  then show ?case by (auto split: sum.splits)
qed simp_all

lemma all_returned:
  assumes "collect_results (as_completed completion fs) = Inr rs"
  shows "\<exists>results. fs = map Inr results \<and> rs = as_completed completion results"
proof -
  have eq: "as_completed completion fs = map Inr rs"
    using assms by (rule collect_results_Inr)
  have "set fs = set (as_completed completion fs)"
    using mset_as_completed [of completion fs] by (metis set_mset_mset)
  then have "\<forall>f\<in>set fs. \<exists>x. f = Inr x" using eq by auto
  then have "fs = map Inr (map projr fs)"
    by (induction fs) auto
  then obtain results where fs: "fs = map Inr results" ..
  have "map Inr rs = map Inr (as_completed completion results)"
    using eq fs by (simp add: as_completed_map)
  then have "rs = as_completed completion results"
    by (simp add: inj_map_eq_map)
  then show ?thesis using fs by blast
qed

lemma chunked_Nil: "chunked [] n = []"
  by (subst chunked.simps) simp

lemma concat_chunked: "0 < n \<Longrightarrow> concat (chunked xs n) = xs"
proof (induction xs n rule: chunked.induct)
  case (1 xs n)
  show ?case
  proof (cases "xs = []")
    case True
    then show ?thesis by (simp add: chunked_Nil)
  next
    case False
    then have "chunked xs n = take n xs # chunked (drop n xs) n"
      using 1(2) by (subst chunked.simps) simp
    then show ?thesis using 1 False by simp
  qed
qed

lemma chunked_three: "chunked [a, b, c] 2 = [[a, b], [c]]"
  by (simp add: chunked.simps [of "[a, b, c]"] chunked.simps [of "[c]"] chunked_Nil)









lemma map_of_set_error:
  "map_of (set_error names e r) =
     (map_of r)(error_message names \<mapsto> PStr (exc_str e),
                error_type names \<mapsto> PStr (error_type_of e),
                error_raw names \<mapsto> PStr (exc_args_str e))"
  by (simp add: set_error_def update_conv')




section \<open>The invocations\<close>

lemma length_init_batch: "length (init_batch names b) = length b"
proof -
  have "length (fold (\<lambda>c. map (AList.update c (PStr []))) cs b) = length b" for cs
    by (induction cs arbitrary: b) simp_all
  then show ?thesis by (simp add: init_batch_def)
qed

lemma handle_error_shape:
  "handle_error self names e out = Inr res \<Longrightarrow> length (unit_rows res) = length (unit_rows out)"
  by (cases out) (auto simp: handle_error_def split: if_splits)

lemma apply_row_shape:
  "apply_row self names r kw = Inr res \<Longrightarrow> length (unit_rows res) = 1"
  by (auto simp: apply_row_def Let_def split: sum.splits dest: handle_error_shape)

lemma apply_batch_shape:
  assumes "apply_batch self names b kw = Inr res" and "keeps_length self"
  shows "length (unit_rows res) = length b"
proof (cases "self_function self (Batch b) kw")
  case (Inl e)
  then show ?thesis using assms(1) 
    by (auto simp: apply_batch_def Let_def length_init_batch dest: handle_error_shape)
next
  case (Inr resp)
  show ?thesis
  proof (cases "self_batch_response_parser self")
    case None
    then show ?thesis using assms(1) Inr
      by (auto simp: apply_batch_def Let_def length_init_batch dest: handle_error_shape)
  next
    case (Some parser)
    show ?thesis
    proof (cases "parser b resp names")
      case (Inl e)
      then show ?thesis using assms(1) Inr Some
        by (auto simp: apply_batch_def Let_def length_init_batch dest: handle_error_shape)
    next
      case parsed: (Inr rows)
      have len: "length rows = length b"
        using assms(2) Some parsed by (auto simp: keeps_length_def split: sum.splits dest: spec [of _ b] )
      show ?thesis using assms(1) Inr Some parsed len
        by (auto simp: apply_batch_def Let_def split: sum.splits if_splits dest: handle_error_shape)
    qed
  qed
qed

lemma submit_shape:
  assumes "submit self names kw u = Inr res" and "keeps_length self"
  shows "length (unit_rows res) = length (unit_input u)"
proof (cases u)
  case (Row r)
  then show ?thesis using assms(1)
    by (auto simp: apply_function_and_parse_response_def provided_def split: if_splits dest: apply_row_shape)
next
  case (Batch b)
  then show ?thesis using assms
    by (auto simp: apply_function_and_parse_response_def provided_def split: if_splits dest: apply_batch_shape)
qed


lemma submit_fail_mode:
  assumes "self_error_handling self = FAIL"
    and "self_function self u kw = Inl error"
    and "caught self error"
  shows "\<exists>e. submit self names kw u = Inl e"
    and "u \<noteq> Row [] \<Longrightarrow> submit self names kw u = Inl error"
  using assms
  by (cases u; auto simp: apply_function_and_parse_response_def provided_def apply_row_def
      apply_batch_def handle_error_def Let_def)+

lemma collect_errors_all:
  assumes "\<forall>r\<in>set rows. map_of r column \<noteq> None"
  shows "collect_errors column rows
         = Inr (filter truthy (map (\<lambda>r. the (map_of r column)) rows))"
  using assms by (induction rows) auto

lemma str_list_nonempty: "str_list vs \<noteq> []"
  by (simp add: str_list_def)

lemma str_tuple1_nonempty: "str_tuple1 v \<noteq> []"
  by (simp add: str_tuple1_def)

lemma caught_BatchError: "caught self (BatchError msg)"
  by (simp add: caught_def BatchError_def)


lemma set_error_populated:
  assumes "exc_str e \<noteq> []" and "error_type_of e \<noteq> []" and "exc_args_str e \<noteq> []"
  shows "is_populated (map_of (set_error names e r) (error_message names)) \<and>
         is_populated (map_of (set_error names e r) (error_type names)) \<and>
         is_populated (map_of (set_error names e r) (error_raw names))"
  using assms by (simp add: map_of_set_error)










section \<open>The run and its result\<close>

lemma run_returns:
  assumes "run self completion df kwargs = Inr out"
  shows "\<exists>results.
           map (submit self (names_in_pool self df kwargs) (pool_kwargs self kwargs))
               (work_units self df) = map Inr results \<and>
           out = convert_results_to_df self df (flatten (as_completed completion results))
                   (get_unique_output_column_names self (df_columns df))"
proof -
  let ?fs = "map (submit self (names_in_pool self df kwargs) (pool_kwargs self kwargs))
                 (work_units self df)"
  from assms obtain rs where rs: "collect_results (as_completed completion ?fs) = Inr rs"
    and out: "out = convert_results_to_df self df (flatten rs)
                      (get_unique_output_column_names self (df_columns df))"
    by (auto simp: run_def Let_def names_in_pool_def split: if_splits sum.splits)
  from all_returned [OF rs] out show ?thesis by auto
qed

lemma run_valid_config:
  assumes "run self completion df kwargs = Inr out"
  shows "0 < self_parallel_workers self \<and> (self_batch_support self \<longrightarrow> 0 < self_batch_size self)"
  using assms by (auto simp: run_def Let_def split: if_splits)


lemma length_flatten: "length (flatten results) = sum_list (map (length \<circ> unit_rows) results)"
  by (simp add: flatten_def length_concat)



lemma results_total:
  assumes "map (submit self names kw) units = map Inr results" and "keeps_length self"
  shows "sum_list (map (length \<circ> unit_rows) results) = length (concat (map unit_input units))"
  using assms(1)
proof (induction units arbitrary: results)
  case Nil
  then show ?case by simp
next
  case (Cons u units)
  then obtain r rest where results: "results = r # rest"
    and r: "submit self names kw u = Inr r"
    and rest: "map (submit self names kw) units = map Inr rest"
    by (cases results) auto
  have "length (unit_rows r) = length (unit_input u)"
    using r assms(2) by (rule submit_shape)
  then show ?case using Cons.IH [OF rest] results by simp
qed


lemma work_units_rows:
  assumes "self_batch_support self \<longrightarrow> 0 < self_batch_size self"
  shows "concat (map unit_input (work_units self df)) = map (to_dict (df_columns df)) (df_data df)"
proof (cases "self_batch_support self")
  case True
  then have "0 < nat (self_batch_size self)" using assms by simp
  then have "concat (chunked (map (to_dict (df_columns df)) (df_data df)) (nat (self_batch_size self)))
             = map (to_dict (df_columns df)) (df_data df)"
    by (rule concat_chunked)
  moreover have "map unit_input (map Batch xs) = xs" for xs :: "row list list"
    by (induction xs) simp_all
  ultimately show ?thesis using True by (simp add: work_units_def Let_def del: map_map)
next
  case False
  have "concat (map unit_input (map Row xs)) = xs" for xs :: "row list"
    by (induction xs) simp_all
  then show ?thesis using False by (simp add: work_units_def Let_def del: map_map)
qed

lemma length_convert:
  "length (df_data (convert_results_to_df self df results names)) = length results"
  by (simp add: convert_results_to_df_def Let_def)









lemma three_dicts:
  "map (to_dict (df_columns three_rows)) (df_data three_rows)
     = [[(''id'', PStr ''1'')], [(''id'', PStr ''2'')], [(''id'', PStr ''3'')]]"
  by (simp add: three_rows_def to_dict_def)

lemma example_names:
  "get_unique_output_column_names log_parallelizer [''id'']
     = \<lparr>response = ''output_response'', error_message = ''output_error_message'',
        error_type = ''output_error_type'', error_raw = ''output_error_raw''\<rparr>"
  by (simp add: get_unique_output_column_names_def OUTPUT_COLUMN_NAME_DESCRIPTIONS_def
      generate_unique_def log_parallelizer_def)

lemma batch_dicts:
  "work_units batch_parallelizer three_rows
     = [Batch [[(''id'', PStr ''1'')], [(''id'', PStr ''2'')]], Batch [[(''id'', PStr ''3'')]]]"
  by (simp add: work_units_def batch_parallelizer_def three_dicts chunked_three)

section \<open>The store\<close>

lemma preserved_refl: "preserved A st st"
  by (simp add: preserved_def)

lemma preserved_trans: "preserved A st st1 \<Longrightarrow> preserved A st1 st2 \<Longrightarrow> preserved A st st2"
  by (auto simp: preserved_def)

lemma preserved_append: "preserved A st (st @ new)"
  by (simp add: preserved_def nth_append)

lemma copy_cell_preserved: "copy_cell c st = (c', st') \<Longrightarrow> preserved A st st'"
  by (cases c) (auto simp: preserved_append preserved_refl)

lemma deepcopy_row_preserved: "deepcopy_row r st = (r', st') \<Longrightarrow> preserved A st st'"
proof (induction r arbitrary: st r' st')
  case Nil
  then show ?case by (simp add: preserved_refl)
next
  case (Cons p r)
  obtain k c where p: "p = (k, c)" by (cases p)
  obtain c1 st1 where c1: "copy_cell c st = (c1, st1)" by (cases "copy_cell c st")
  obtain r2 st2 where r2: "deepcopy_row r st1 = (r2, st2)" by (cases "deepcopy_row r st1")
  have "st' = st2" using Cons.prems p c1 r2 by simp
  moreover have "preserved A st st1" using c1 by (rule copy_cell_preserved)
  moreover have "preserved A st1 st2" using r2 by (rule Cons.IH)
  ultimately show ?case using preserved_trans by blast
qed

lemma deepcopy_batch_preserved: "deepcopy_batch b st = (b', st') \<Longrightarrow> preserved A st st'"
proof (induction b arbitrary: st b' st')
  case Nil
  then show ?case by (simp add: preserved_refl)
next
  case (Cons r b)
  obtain r1 st1 where r1: "deepcopy_row r st = (r1, st1)" by (cases "deepcopy_row r st")
  obtain b2 st2 where b2: "deepcopy_batch b st1 = (b2, st2)" by (cases "deepcopy_batch b st1")
  have "st' = st2" using Cons.prems r1 b2 by simp
  moreover have "preserved A st st1" using r1 by (rule deepcopy_row_preserved)
  moreover have "preserved A st1 st2" using b2 by (rule Cons.IH)
  ultimately show ?case using preserved_trans by blast
qed

lemma function_preserved:
  "leaves_alone self A \<Longrightarrow> self_function self u kw st = (res, st') \<Longrightarrow> preserved A st st'"
proof -
  assume "leaves_alone self A" and call: "self_function self u kw st = (res, st')"
  then have "\<forall>u kw st. preserved A st (snd (self_function self u kw st))"
    by (simp add: leaves_alone_def)
  then have "preserved A st (snd (self_function self u kw st))" by blast
  then show ?thesis using call by simp
qed

lemma parser_preserved:
  "leaves_alone self A \<Longrightarrow> self_batch_response_parser self = Some parser \<Longrightarrow>
   parser b resp names st = (res, st') \<Longrightarrow> preserved A st st'"
proof -
  assume "leaves_alone self A" and "self_batch_response_parser self = Some parser"
    and p: "parser b resp names st = (res, st')"
  then have "\<forall>b resp names st. preserved A st (snd (parser b resp names st))"
    by (simp add: leaves_alone_def)
  then have "preserved A st (snd (parser b resp names st))" by blast
  then show ?thesis using p by simp
qed

lemma o_apply_row_preserved:
  assumes "leaves_alone self A" and "o_apply_row self names r kw st = (res, st')"
  shows "preserved A st st'"
proof -
  obtain copy st1 where copy: "deepcopy_row r st = (copy, st1)" by (cases "deepcopy_row r st")
  obtain fres st2 where call: "self_function self (ORow r) kw st1 = (fres, st2)"
    by (cases "self_function self (ORow r) kw st1")
  have "st' = st2"
    using assms(2) copy call by (cases fres) (simp_all add: o_apply_row_def)
  moreover have "preserved A st st1" using copy by (rule deepcopy_row_preserved)
  moreover have "preserved A st1 st2" using assms(1) call by (rule function_preserved)
  ultimately show ?thesis using preserved_trans by blast
qed

lemma o_apply_batch_preserved:
  assumes "leaves_alone self A" and "o_apply_batch self names b kw st = (res, st')"
  shows "preserved A st st'"
proof -
  obtain copy st1 where copy: "deepcopy_batch b st = (copy, st1)"
    by (cases "deepcopy_batch b st")
  obtain fres st2 where call: "self_function self (OBatch b) kw st1 = (fres, st2)"
    by (cases "self_function self (OBatch b) kw st1")
  have p1: "preserved A st st1" using copy by (rule deepcopy_batch_preserved)
  have p2: "preserved A st1 st2" using assms(1) call by (rule function_preserved)
  have p12: "preserved A st st2" using p1 p2 by (rule preserved_trans)
  show ?thesis
  proof (cases fres)
    case (Inl e)
    then have "st' = st2" using assms(2) copy call by (simp add: o_apply_batch_def)
    then show ?thesis using p12 by simp
  next
    case (Inr resp)
    show ?thesis
    proof (cases "self_batch_response_parser self")
      case None
      then have "st' = st2" using assms(2) copy call Inr by (simp add: o_apply_batch_def)
      then show ?thesis using p12 by simp
    next
      case (Some parser)
      obtain pres st3 where parse: "parser b resp names st2 = (pres, st3)"
        by (cases "parser b resp names st2")
      have "st' = st3"
        using assms(2) copy call Inr Some parse
        by (cases pres) (auto simp: o_apply_batch_def split: sum.splits if_splits)
      moreover have "preserved A st2 st3" using assms(1) Some parse by (rule parser_preserved)
      ultimately show ?thesis using p12 preserved_trans by blast
    qed
  qed
qed

lemma o_submit_preserved:
  assumes "leaves_alone self A" and "o_submit self names kw u st = (res, st')"
  shows "preserved A st st'"
proof (cases u)
  case (ORow r)
  then show ?thesis
    using assms
    by (auto simp: o_apply_function_and_parse_response_def preserved_refl
        split: if_splits dest: o_apply_row_preserved)
next
  case (OBatch b)
  then show ?thesis
    using assms
    by (auto simp: o_apply_function_and_parse_response_def provided_def preserved_refl
        split: if_splits dest: o_apply_batch_preserved)
qed

lemma run_all_preserved:
  assumes "\<And>u st res st'. invoke u st = (res, st') \<Longrightarrow> preserved A st st'"
    and "run_all invoke us st = (rs, st')"
  shows "preserved A st st'"
  using assms(2)
proof (induction us arbitrary: st rs st')
  case Nil
  then show ?case by (simp add: preserved_refl)
next
  case (Cons u us)
  obtain r st1 where r: "invoke u st = (r, st1)" by (cases "invoke u st")
  obtain rest st2 where rest: "run_all invoke us st1 = (rest, st2)"
    by (cases "run_all invoke us st1")
  have "st' = st2" using Cons.prems r rest by simp
  moreover have "preserved A st st1" using r by (rule assms(1))
  moreover have "preserved A st1 st2" using rest by (rule Cons.IH)
  ultimately show ?case using preserved_trans by blast
qed

lemma o_run_preserved:
  assumes "leaves_alone self A" and "o_run self completion df kwargs st = (res, st')"
  shows "preserved A st st'"
proof -
  let ?invoke = "o_submit self (names_in_pool self df kwargs) (pool_kwargs self kwargs)"
  obtain fs st1 where all: "run_all ?invoke (as_completed completion (o_work_units self df)) st = (fs, st1)"
    by (cases "run_all ?invoke (as_completed completion (o_work_units self df)) st")
  have p: "preserved A st st1"
  proof (rule run_all_preserved [OF _ all])
    fix u s r s' assume "?invoke u s = (r, s')"
    with assms(1) show "preserved A s s'" by (rule o_submit_preserved)
  qed
  have "st' = st \<or> st' = st1"
    using assms(2) all by (auto simp: o_run_def Let_def split: if_splits sum.splits)
  then show ?thesis using p preserved_refl by auto
qed

section \<open>The engine over the store on tables of values\<close>

lemma lower_lift_row: "lower_row (lift_row r) = r"
  by (induction r) (auto simp: lower_row_def lift_row_def)

lemma lower_lift_rows: "map lower_row (map lift_row b) = b"
  by (induction b) (simp_all add: lower_lift_row)

lemma lift_update: "AList.update k (Imm v) (lift_row r) = lift_row (AList.update k v r)"
  by (induction r) (auto simp: lift_row_def)

lemma map_of_lift_row: "map_of (lift_row r) k = map_option Imm (map_of r k)"
  by (induction r) (auto simp: lift_row_def)

lemma deepcopy_lift_row: "deepcopy_row (lift_row r) st = (lift_row r, st)"
  by (induction r) (auto simp: lift_row_def)

lemma deepcopy_lift_batch: "deepcopy_batch (map lift_row b) st = (map lift_row b, st)"
  by (induction b) (simp_all add: deepcopy_lift_row)

lemma lift_init_row: "o_init_row names (lift_row r) = lift_row (init_row names r)"
proof -
  have "fold (\<lambda>c. AList.update c (Imm v)) cs (lift_row r)
        = lift_row (fold (\<lambda>c. AList.update c v) cs r)" for cs v
    by (induction cs arbitrary: r) (simp_all add: lift_update)
  then show ?thesis by (simp add: o_init_row_def init_row_def)
qed

lemma lift_update_rows:
  "map (AList.update k (Imm v)) (map lift_row b) = map lift_row (map (AList.update k v) b)"
  by (induction b) (simp_all add: lift_update)

lemma lift_init_batch: "o_init_batch names (map lift_row b) = map lift_row (init_batch names b)"
proof -
  have "fold (\<lambda>c. map (AList.update c (Imm v))) cs (map lift_row b)
        = map lift_row (fold (\<lambda>c. map (AList.update c v)) cs b)" for cs v
  proof (induction cs arbitrary: b)
    case Nil
    then show ?case by simp
  next
    case (Cons c cs)
    then show ?case by (simp only: fold_simps lift_update_rows)
  qed
  then show ?thesis by (simp add: o_init_batch_def init_batch_def)
qed

lemma lift_set_error: "o_set_error names e (lift_row r) = lift_row (set_error names e r)"
  by (simp add: o_set_error_def set_error_def lift_update)

lemma caught_lift: "caught (lift_parallelizer self) e = caught self e"
  by (simp add: caught_def lift_parallelizer_def)

lemma lift_fields:
  "self_function (lift_parallelizer self) = lift_function (self_function self)"
  "self_error_handling (lift_parallelizer self) = self_error_handling self"
  "self_parallel_workers (lift_parallelizer self) = self_parallel_workers self"
  "self_batch_support (lift_parallelizer self) = self_batch_support self"
  "self_batch_size (lift_parallelizer self) = self_batch_size self"
  "self_batch_response_parser (lift_parallelizer self)
     = map_option lift_parser (self_batch_response_parser self)"
  "self_output_column_prefix (lift_parallelizer self) = self_output_column_prefix self"
  "self_verbose (lift_parallelizer self) = self_verbose self"
  by (simp_all add: lift_parallelizer_def)

lemma lift_handle_error:
  "o_handle_error (lift_parallelizer self) names e (lift_result out)
   = map_sum id lift_result (handle_error self names e out)"
  by (cases out)
     (simp_all add: o_handle_error_def handle_error_def caught_lift lift_set_error comp_def
        lift_fields)

lemma o_repr_Imm: "map (o_repr st) (map Imm vs) = map py_repr vs"
  by (induction vs) simp_all

lemma o_str_list_Imm: "o_str_list st (map Imm vs) = str_list vs"
  by (simp add: o_str_list_def str_list_def o_repr_Imm del: map_map)

lemma lift_collect_errors:
  "o_collect_errors st column (map lift_row rows)
   = map_sum id (map Imm) (collect_errors column rows)"
  by (induction rows) (auto simp: map_of_lift_row split: option.splits sum.splits)

lemma lift_apply_row:
  "o_apply_row (lift_parallelizer self) names (lift_row r) kw st
   = (map_sum id lift_result (apply_row self names r kw), st)"
proof (cases "self_function self (Row r) kw")
  case (Inl e)
  then show ?thesis
    using lift_handle_error [of self names e "ROut (init_row names r)"]
    by (simp add: o_apply_row_def apply_row_def deepcopy_lift_row lift_fields lift_function_def
        lower_lift_row lift_init_row)
next
  case (Inr v)
  then show ?thesis
    by (simp add: o_apply_row_def apply_row_def deepcopy_lift_row lift_fields lift_function_def
        lower_lift_row lift_init_row lift_update)
qed

lemma lift_apply_batch:
  "o_apply_batch (lift_parallelizer self) names (map lift_row b) kw st
   = (map_sum id lift_result (apply_batch self names b kw), st)"
proof -
  have handle: "o_handle_error (lift_parallelizer self) names e (OBOut (map lift_row rs))
      = map_sum id lift_result (handle_error self names e (BOut rs))" for e rs
    using lift_handle_error [of self names e "BOut rs"] by simp
  show ?thesis
  proof (cases "self_function self (Batch b) kw")
    case (Inl e)
    then show ?thesis
      by (simp add: o_apply_batch_def apply_batch_def deepcopy_lift_batch lift_fields
          lift_function_def lower_lift_rows lift_init_batch handle del: map_map)
  next
    case (Inr resp)
    show ?thesis
    proof (cases "self_batch_response_parser self")
      case None
      then show ?thesis
        using Inr
        by (simp add: o_apply_batch_def apply_batch_def deepcopy_lift_batch lift_fields
            lift_function_def lower_lift_rows lift_init_batch handle del: map_map)
    next
      case (Some parser)
      show ?thesis
      proof (cases "parser b resp names")
        case (Inl e)
        then show ?thesis
          using Inr Some
          by (simp add: o_apply_batch_def apply_batch_def deepcopy_lift_batch lift_fields
              lift_function_def lift_parser_def lower_lift_rows lift_init_batch handle
              del: map_map)
      next
        case parsed: (Inr rows)
        show ?thesis
        proof (cases "collect_errors (error_message names) rows")
          case (Inl e)
          then show ?thesis
            using Inr Some parsed
            by (simp add: o_apply_batch_def apply_batch_def deepcopy_lift_batch lift_fields
                lift_function_def lift_parser_def lower_lift_rows lift_init_batch handle
                lift_collect_errors del: map_map)
        next
          case errors: (Inr errors)
          then show ?thesis
            using Inr Some parsed
            by (simp add: o_apply_batch_def apply_batch_def deepcopy_lift_batch lift_fields
                lift_function_def lift_parser_def lower_lift_rows lift_init_batch handle
                lift_collect_errors o_str_list_Imm del: map_map)
        qed
      qed
    qed
  qed
qed

lemma provided_lift:
  "provided (map_option lift_row row) = provided row"
  "provided (map_option (map lift_row) batch) = provided batch"
  by (auto simp: provided_def lift_row_def split: option.splits)

lemma lift_submit:
  "o_submit (lift_parallelizer self) names kw (lift_unit u) st
   = (map_sum id lift_result (submit self names kw u), st)"
proof (cases u)
  case (Row r)
  have "provided (Some (lift_row r)) = provided (Some r)"
    using provided_lift(1) [of "Some r"] by simp
  then show ?thesis
    using Row
    by (simp add: o_apply_function_and_parse_response_def apply_function_and_parse_response_def
        lift_apply_row) (simp add: provided_def)
next
  case (Batch b)
  then show ?thesis
    by (simp add: o_apply_function_and_parse_response_def apply_function_and_parse_response_def
        lift_apply_batch provided_def)
qed

lemma run_all_stateless:
  assumes "\<And>u st. invoke u st = (g u, st)"
  shows "run_all invoke us st = (map g us, st)"
  by (induction us arbitrary: st) (simp_all add: assms)

lemma collect_results_lift:
  "collect_results (map (map_sum id g) fs) = map_sum id (map g) (collect_results fs)"
  by (induction fs rule: collect_results.induct) (auto split: sum.splits)

lemma lift_to_dict: "o_to_dict labels (map Imm cells) = lift_row (to_dict labels cells)"
proof -
  have "fold (\<lambda>(k, v). AList.update k v) (zip labels (map Imm cells)) (lift_row al)
        = lift_row (fold (\<lambda>(k, v). AList.update k v) (zip labels cells) al)" for al
  proof (induction labels arbitrary: cells al)
    case Nil
    then show ?case by simp
  next
    case (Cons l labels)
    then show ?case by (cases cells) (simp_all add: lift_update)
  qed
  from this [of "[]"] show ?thesis by (simp add: o_to_dict_def to_dict_def lift_row_def)
qed

lemma chunked_map: "chunked (map g xs) n = map (map g) (chunked xs n)"
proof (induction xs n rule: chunked.induct)
  case (1 xs n)
  show ?case
  proof (cases "xs = [] \<or> n = 0")
    case True
    then show ?thesis by (simp add: chunked.simps [of xs] chunked.simps [of "map g xs"])
  next
    case False
    then show ?thesis
      using 1 by (simp add: chunked.simps [of xs] chunked.simps [of "map g xs"] take_map drop_map)
  qed
qed

lemma lift_work_units:
  "o_work_units (lift_parallelizer self) (lift_table df) = map lift_unit (work_units self df)"
proof -
  let ?rows = "map (to_dict (df_columns df)) (df_data df)"
  have rows: "map (o_to_dict (df_columns (lift_table df))) (df_data (lift_table df))
              = map lift_row ?rows"
    by (simp add: lift_table_def lift_to_dict)
  have row_units: "map ORow (map lift_row xs) = map lift_unit (map Row xs)" for xs
    by (induction xs) simp_all
  have batch_units: "map OBatch (map (map lift_row) xss) = map lift_unit (map Batch xss)" for xss
    by (induction xss) simp_all
  show ?thesis
  proof (cases "self_batch_support self")
    case True
    then show ?thesis
      unfolding o_work_units_def work_units_def Let_def rows
      by (simp only: lift_fields chunked_map batch_units if_True)
  next
    case False
    then show ?thesis
      unfolding o_work_units_def work_units_def Let_def rows
      by (simp only: lift_fields row_units if_False)
  qed
qed

lemma run_all_lifted:
  assumes "\<And>u st. invoke (h u) st = (g u, st)"
  shows "run_all invoke (map h us) st = (map g us, st)"
  by (induction us arbitrary: st) (simp_all add: assms)

lemma lift_columns: "df_columns (lift_table df) = df_columns df"
  by (simp add: lift_table_def)

lemma lift_generated:
  "get_unique_output_column_names (lift_parallelizer self) existing
     = get_unique_output_column_names self existing"
  by (simp add: get_unique_output_column_names_def lift_fields)

lemma lift_names:
  "names_in_pool (lift_parallelizer self) (lift_table df) kwargs = names_in_pool self df kwargs"
  "pool_kwargs (lift_parallelizer self) kwargs = pool_kwargs self kwargs"
  "dropped_columns (lift_parallelizer self) names = dropped_columns self names"
  by (simp_all add: names_in_pool_def pool_kwargs_def dropped_columns_def lift_fields
      lift_columns lift_generated split: option.splits)

lemma lift_unit_rows:
  "concat (map (o_unit_rows \<circ> lift_result) results) = map lift_row (flatten results)"
proof (induction results)
  case Nil
  then show ?case by (simp add: flatten_def)
next
  case (Cons r results)
  then show ?case by (cases r) (simp_all add: flatten_def)
qed

lemma lift_record_cell: "o_record_cell (lift_row r) c = Imm (record_cell r c)"
  by (simp add: o_record_cell_def record_cell_def map_of_lift_row split: option.splits)

lemma lift_astype_cell:
  "o_astype_cell st columns c (Imm v) = Imm (astype_cell columns c v)"
  by (simp add: o_astype_cell_def astype_cell_def)

lemma lift_convert:
  "o_convert_results_to_df (lift_parallelizer self) (lift_table df) (map lift_row results) names st
   = lift_table (convert_results_to_df self df results names)"
  by (simp add: o_convert_results_to_df_def convert_results_to_df_def lift_table_def Let_def
      lift_names lift_record_cell lift_astype_cell comp_def)

text \<open>
  On a table of values, with a user function and a parser of values, the engine over the
  store computes the table or the exception that the engine over values computes, under
  every order of completion, and its deep copies leave the store as it was.
\<close>

theorem store_run_of_values:
  "o_run (lift_parallelizer self) completion (lift_table df) kwargs st
   = (map_sum id lift_table (run self completion df kwargs), st)"
proof -
  let ?names = "names_in_pool self df kwargs"
  let ?kw = "pool_kwargs self kwargs"
  let ?fs = "map (submit self ?names ?kw) (work_units self df)"
  have all: "run_all (o_submit (lift_parallelizer self) ?names ?kw)
               (as_completed completion (o_work_units (lift_parallelizer self) (lift_table df))) st
             = (map (map_sum id lift_result) (as_completed completion ?fs), st)"
  proof -
    have "run_all (o_submit (lift_parallelizer self) ?names ?kw)
               (map lift_unit (as_completed completion (work_units self df))) st
          = (map (\<lambda>u. map_sum id lift_result (submit self ?names ?kw u))
                 (as_completed completion (work_units self df)), st)"
      by (rule run_all_lifted) (rule lift_submit)
    then show ?thesis
      by (simp only: lift_work_units as_completed_map map_map comp_def)
  qed
  show ?thesis
  proof (cases "collect_results (as_completed completion ?fs)")
    case (Inl e)
    then show ?thesis
      using all
      by (simp add: o_run_def run_def Let_def lift_fields lift_names lift_generated lift_columns
          collect_results_lift)
  next
    case (Inr results)
    then show ?thesis
      using all
      by (simp add: o_run_def run_def Let_def lift_fields lift_names lift_generated lift_columns
          collect_results_lift lift_unit_rows lift_convert)
  qed
qed

section \<open>The claims\<close>




text \<open>
  Claim C2. Whenever \<^verbatim>\<open>run\<close> returns a table, in row mode or in batch mode with any
  batch size and under any order of completion, the table has exactly as many rows as the
  input table: chaining the results of the units neither drops nor duplicates a row. The
  batch response parser is taken to honour its contract and return as many rows as its
  batch has.
\<close>

theorem run_keeps_row_count:
  assumes "run self completion df kwargs = Inr out" and "keeps_length self"
  shows "length (df_data out) = length (df_data df)"
proof -
  obtain results where
    fs: "map (submit self (names_in_pool self df kwargs) (pool_kwargs self kwargs))
             (work_units self df) = map Inr results"
    and out: "out = convert_results_to_df self df (flatten (as_completed completion results))
                      (get_unique_output_column_names self (df_columns df))"
    using run_returns [OF assms(1)] by blast
  have valid: "self_batch_support self \<longrightarrow> 0 < self_batch_size self"
    using run_valid_config [OF assms(1)] by simp
  have "length (df_data out) = length (flatten (as_completed completion results))"
    using out by (simp add: length_convert)
  also have "\<dots> = sum_list (map (length \<circ> unit_rows) results)"
    by (simp only: length_flatten sum_list_as_completed)
  also have "\<dots> = length (concat (map unit_input (work_units self df)))"
    using fs assms(2) by (rule results_total)
  also have "\<dots> = length (df_data df)"
    using work_units_rows [OF valid] by simp
  finally show ?thesis .
qed

theorem run_keeps_row_count_witness:
  "run batch_parallelizer [1] three_rows no_kwargs =
     Inr \<lparr>df_columns = [''id'', ''output_response'', ''output_error_message'', ''output_error_type''],
          df_data = [[PStr ''3'', PStr ''ok'', PStr [], PStr ''nan''],
                     [PStr ''1'', PStr ''ok'', PStr [], PStr ''nan''],
                     [PStr ''2'', PStr ''ok'', PStr [], PStr ''nan'']]\<rparr> \<and>
   keeps_length batch_parallelizer \<and>
   length (df_data \<lparr>df_columns = [''id'', ''output_response'', ''output_error_message'', ''output_error_type''],
          df_data = [[PStr ''3'', PStr ''ok'', PStr [], PStr ''nan''],
                     [PStr ''1'', PStr ''ok'', PStr [], PStr ''nan''],
                     [PStr ''2'', PStr ''ok'', PStr [], PStr ''nan'']]\<rparr>) = length (df_data three_rows)"
proof -
  have r: "run batch_parallelizer [1] three_rows no_kwargs =
     Inr \<lparr>df_columns = [''id'', ''output_response'', ''output_error_message'', ''output_error_type''],
          df_data = [[PStr ''3'', PStr ''ok'', PStr [], PStr ''nan''],
                     [PStr ''1'', PStr ''ok'', PStr [], PStr ''nan''],
                     [PStr ''2'', PStr ''ok'', PStr [], PStr ''nan'']]\<rparr>"
    by code_simp
  have k: "keeps_length batch_parallelizer"
    by (simp add: keeps_length_def batch_parallelizer_def echo_parser_def)
  show ?thesis using r k run_keeps_row_count [OF r k] by simp
qed

text \<open>
  Claim C3. In fail mode, if the user function raises a caught exception on some unit,
  \<^verbatim>\<open>run\<close> returns no table under any order of completion: it raises. When the
  configuration passes the checks of \<^verbatim>\<open>run\<close>, the exception that reaches the caller
  is one that an invocation raised, and the invocation of the failing unit raises the
  user function's exception itself (for an empty row it raises before the call).
\<close>

theorem fail_mode_aborts:
  assumes fail: "self_error_handling self = FAIL"
    and unit: "u \<in> set (work_units self df)"
    and raises: "self_function self u (pool_kwargs self kwargs) = Inl error"
    and caught: "caught self error"
  shows "(\<exists>e. run self completion df kwargs = Inl e \<and>
            (0 < self_parallel_workers self \<and>
             (self_batch_support self \<longrightarrow> 0 < self_batch_size self) \<longrightarrow>
               (\<exists>u'\<in>set (work_units self df).
                  submit self (names_in_pool self df kwargs) (pool_kwargs self kwargs) u'
                    = Inl e))) \<and>
         (u \<noteq> Row [] \<longrightarrow>
            submit self (names_in_pool self df kwargs) (pool_kwargs self kwargs) u = Inl error)"
proof -
  let ?names = "names_in_pool self df kwargs"
  let ?kw = "pool_kwargs self kwargs"
  let ?fs = "map (submit self ?names ?kw) (work_units self df)"
  obtain e0 where "submit self ?names ?kw u = Inl e0"
    using submit_fail_mode(1) [OF fail raises caught] by blast
  then have "Inl e0 \<in> set (as_completed completion ?fs)"
    using unit by (force simp: set_as_completed)
  then obtain e where e: "collect_results (as_completed completion ?fs) = Inl e"
    using collect_results_fails by blast
  then have "Inl e \<in> set ?fs"
    using collect_results_Inl [OF e] by (simp only: set_as_completed)
  then have from_unit: "\<exists>u'\<in>set (work_units self df). submit self ?names ?kw u' = Inl e"
    by auto
  have aborted: "\<exists>e. run self completion df kwargs = Inl e \<and>
           (0 < self_parallel_workers self \<and>
            (self_batch_support self \<longrightarrow> 0 < self_batch_size self) \<longrightarrow>
              (\<exists>u'\<in>set (work_units self df). submit self ?names ?kw u' = Inl e))"
  proof (cases "0 < self_parallel_workers self \<and>
            (self_batch_support self \<longrightarrow> 0 < self_batch_size self)")
    case True
    then have "run self completion df kwargs = Inl e"
      using e by (auto simp: run_def Let_def)
    then show ?thesis using from_unit by blast
  next
    case False
    then have "\<exists>e. run self completion df kwargs = Inl e"
      using e by (auto simp: run_def Let_def)
    then show ?thesis using False by blast
  qed
  have "u \<noteq> Row [] \<longrightarrow> submit self ?names ?kw u = Inl error"
    using submit_fail_mode(2) [OF fail raises caught] by blast
  then show ?thesis using aborted by blast
qed

theorem fail_mode_aborts_witness:
  "run (log_parallelizer\<lparr>self_error_handling := FAIL\<rparr>) [2, 0] three_rows no_kwargs
     = Inl (ValueError ''bad id'') \<and>
   submit (log_parallelizer\<lparr>self_error_handling := FAIL\<rparr>)
       (names_in_pool (log_parallelizer\<lparr>self_error_handling := FAIL\<rparr>) three_rows no_kwargs)
       (pool_kwargs (log_parallelizer\<lparr>self_error_handling := FAIL\<rparr>) no_kwargs)
       (Row [(''id'', PStr ''2'')])
     = Inl (ValueError ''bad id'')"
proof -
  let ?self = "log_parallelizer\<lparr>self_error_handling := FAIL\<rparr>"
  let ?u = "Row [(''id'', PStr ''2'')]"
  have fail: "self_error_handling ?self = FAIL" by simp
  have unit: "?u \<in> set (work_units ?self three_rows)"
    by (simp add: work_units_def log_parallelizer_def three_dicts)
  have raises: "self_function ?self ?u (pool_kwargs ?self no_kwargs) = Inl (ValueError ''bad id'')"
    by (simp add: log_parallelizer_def ok_unless_2_def)
  have caught: "caught ?self (ValueError ''bad id'')"
    by (simp add: caught_def log_parallelizer_def ValueError_def builtin_exc_def)
  have run: "run ?self [2, 0] three_rows no_kwargs = Inl (ValueError ''bad id'')"
    by code_simp
  show ?thesis
    using fail_mode_aborts [OF fail unit raises caught, of "[2, 0]"] run by simp
qed




text \<open>
  Claim C5. Constructing the engine in log mode with no exception class to catch raises
  \<^verbatim>\<open>ValueError\<close>, and so does constructing it with batch support and no batch response
  parser. Either way no engine object results, whatever the user function is, so no row
  is ever processed.
\<close>

theorem init_validates:
  "(error_handling = LOG \<and> exceptions_to_catch = [] \<longrightarrow>
      init f error_handling exceptions_to_catch parallel_workers batch_support batch_size
           batch_response_parser output_column_prefix verbose
        = Inl (ValueError ''Please set at least one exception in exceptions_to_catch'')) \<and>
   (batch_support \<and> batch_response_parser = None \<longrightarrow>
      init f error_handling exceptions_to_catch parallel_workers batch_support batch_size
           batch_response_parser output_column_prefix verbose
        = Inl (ValueError
            (if error_handling = LOG \<and> exceptions_to_catch = []
             then ''Please set at least one exception in exceptions_to_catch''
             else ''Please provide a valid batch_response_parser function'')))"
  by (simp add: init_def)

theorem init_validates_witness:
  "init ok_unless_2 LOG [] 4 False 10 None ''output'' False
     = Inl (ValueError ''Please set at least one exception in exceptions_to_catch'') \<and>
   init ok_unless_2 FAIL [] 4 True 10 None ''output'' False
     = Inl (ValueError ''Please provide a valid batch_response_parser function'')"
  using init_validates [where error_handling = LOG and exceptions_to_catch = "[]"
      and f = ok_unless_2 and parallel_workers = 4 and batch_support = False
      and batch_size = 10 and batch_response_parser = None
      and output_column_prefix = "''output''" and verbose = False]
    init_validates [where error_handling = FAIL and exceptions_to_catch = "[]"
      and f = ok_unless_2 and parallel_workers = 4 and batch_support = True
      and batch_size = 10 and batch_response_parser = None
      and output_column_prefix = "''output''" and verbose = False]
  by simp




text \<open>
  Claim C7. In batch mode and log mode, when the user function has answered and the
  parser has returned rows that all carry the error message column, and the error message
  of some row is true (a text that is not empty), the invocation raises one
  \<^verbatim>\<open>BatchError\<close> for the whole unit and the handler writes it into every row the
  parser returned: error message, error type and raw error are filled in in each.
\<close>

theorem batch_error_marks_every_row:
  assumes log: "self_error_handling self = LOG"
    and answered: "self_function self (Batch b) kw = Inr resp"
    and parser: "self_batch_response_parser self = Some parser"
    and parsed: "parser b resp names = Inr parsed"
    and carried: "\<forall>r\<in>set parsed. map_of r (error_message names) \<noteq> None"
    and some_error: "\<exists>r\<in>set parsed. truthy (the (map_of r (error_message names)))"
  shows "\<exists>errors. errors \<noteq> [] \<and>
           apply_function_and_parse_response self names None (Some b) kw
             = Inr (BOut (map (set_error names (BatchError (str_list errors))) parsed)) \<and>
           (\<forall>r\<in>set (map (set_error names (BatchError (str_list errors))) parsed).
              is_populated (map_of r (error_message names)) \<and>
              is_populated (map_of r (error_type names)) \<and>
              is_populated (map_of r (error_raw names)))"
proof -
  let ?errors = "filter truthy (map (\<lambda>r. the (map_of r (error_message names))) parsed)"
  have collected: "collect_errors (error_message names) parsed = Inr ?errors"
    using carried by (rule collect_errors_all)
  have nonempty: "?errors \<noteq> []"
    using some_error by (auto simp: filter_empty_conv)
  have result: "apply_function_and_parse_response self names None (Some b) kw
        = Inr (BOut (map (set_error names (BatchError (str_list ?errors))) parsed))"
    using log answered parser parsed collected nonempty
    by (simp add: apply_function_and_parse_response_def provided_def apply_batch_def
        handle_error_def caught_BatchError)
  have "exc_str (BatchError (str_list ?errors)) \<noteq> []"
    and "error_type_of (BatchError (str_list ?errors)) \<noteq> []"
    and "exc_args_str (BatchError (str_list ?errors)) \<noteq> []"
    by (simp_all add: BatchError_def error_type_of_def str_list_nonempty str_tuple1_nonempty)
  then have "\<forall>r\<in>set (map (set_error names (BatchError (str_list ?errors))) parsed).
              is_populated (map_of r (error_message names)) \<and>
              is_populated (map_of r (error_type names)) \<and>
              is_populated (map_of r (error_raw names))"
    using set_error_populated by auto
  then show ?thesis using nonempty result by blast
qed

theorem batch_error_marks_every_row_witness:
  "\<exists>errors. errors \<noteq> [] \<and>
     apply_function_and_parse_response
         (batch_parallelizer\<lparr>self_batch_response_parser := Some flagging_parser\<rparr>)
         plain_names None (Some [[(''id'', PStr ''1'')], [(''id'', PStr ''2'')]]) Map.empty
       = Inr (BOut (map (set_error plain_names (BatchError (str_list errors)))
           [[(''id'', PStr ''1''), (''output_response'', PStr ''ok''),
             (''output_error_message'', PStr [])],
            [(''id'', PStr ''2''), (''output_response'', PStr ''ok''),
             (''output_error_message'', PStr ''bad id'')]]))"
proof -
  let ?self = "batch_parallelizer\<lparr>self_batch_response_parser := Some flagging_parser\<rparr>"
  let ?b = "[[(''id'', PStr ''1'')], [(''id'', PStr ''2'')]]"
  let ?parsed = "[[(''id'', PStr ''1''), (''output_response'', PStr ''ok''),
             (''output_error_message'', PStr [])],
            [(''id'', PStr ''2''), (''output_response'', PStr ''ok''),
             (''output_error_message'', PStr ''bad id'')]]"
  have "\<exists>errors. errors \<noteq> [] \<and>
           apply_function_and_parse_response ?self plain_names None (Some ?b) Map.empty
             = Inr (BOut (map (set_error plain_names (BatchError (str_list errors))) ?parsed)) \<and>
           (\<forall>r\<in>set (map (set_error plain_names (BatchError (str_list errors))) ?parsed).
              is_populated (map_of r (error_message plain_names)) \<and>
              is_populated (map_of r (error_type plain_names)) \<and>
              is_populated (map_of r (error_raw plain_names)))"
  proof (rule batch_error_marks_every_row [where resp = "PStr ''ok''" and parser = flagging_parser])
    show "self_error_handling ?self = LOG"
      by (simp add: batch_parallelizer_def log_parallelizer_def)
    show "self_function ?self (Batch ?b) Map.empty = Inr (PStr ''ok'')"
      by (simp add: batch_parallelizer_def log_parallelizer_def ok_unless_2_def)
    show "self_batch_response_parser ?self = Some flagging_parser" by simp
    show "flagging_parser ?b (PStr ''ok'') plain_names = Inr ?parsed"
      by (simp add: flagging_parser_def plain_names_def)
    show "\<forall>r\<in>set ?parsed. map_of r (error_message plain_names) \<noteq> None"
      by (simp add: plain_names_def)
    show "\<exists>r\<in>set ?parsed. truthy (the (map_of r (error_message plain_names)))"
      by (simp add: plain_names_def)
  qed
  then show ?thesis by blast
qed

text \<open>
  Claim C8. The four generated output column names (response, error message, error type,
  raw error, each with the prefix) are pairwise different, and none of them is the name of
  a column the input table already has.
\<close>

theorem output_column_names_unique:
  "distinct (tuple_fields (get_unique_output_column_names self existing_names)) \<and>
   set (tuple_fields (get_unique_output_column_names self existing_names))
     \<inter> set existing_names = {}"
  using generated_distinct generated_fresh by blast

theorem output_column_names_unique_witness:
  "distinct (tuple_fields (get_unique_output_column_names log_parallelizer
       [''id'', ''output_response'', ''output_response_1''])) \<and>
   set (tuple_fields (get_unique_output_column_names log_parallelizer
       [''id'', ''output_response'', ''output_response_1'']))
     \<inter> set [''id'', ''output_response'', ''output_response_1''] = {}"
  using output_column_names_unique
    [of log_parallelizer "[''id'', ''output_response'', ''output_response_1'']"]
  by simp




text \<open>
  Claim C10, amended. The engine itself never changes an object of the input table: every
  unit is deep-copied before the user function is called, and the results are written
  into the copy or into the rows the parser returned. The user function and the parser
  are called on the unit itself, not on the copy; when neither of them changes the objects
  of the table, every such object holds the same list when \<^verbatim>\<open>run\<close> ends, whether it
  returns a table or raises.
\<close>

theorem input_table_unchanged:
  assumes "leaves_alone self (table_objects df)"
    and "o_run self completion df kwargs st = (res, st')"
    and "a \<in> table_objects df" and "a < length st"
  shows "a < length st' \<and> st' ! a = st ! a"
  using o_run_preserved [OF assms(1,2)] assms(3,4) by (simp add: preserved_def)

theorem input_table_unchanged_witness:
  "o_run answering_parallelizer [] list_table no_kwargs [[PInt 0]] =
     (Inr \<lparr>df_columns = [''x'', ''output_response'', ''output_error_message'',
                          ''output_error_type''],
           df_data = [[Obj 1, Imm (PStr ''ok''), Imm (PStr []), Imm (PStr [])]]\<rparr>,
      [[PInt 0], [PInt 0]]) \<and>
   (0 :: nat) < length [[PInt 0], [PInt 0]] \<and>
   [[PInt 0], [PInt 0]] ! 0 = [[PInt 0]] ! 0"
proof -
  have leaves: "leaves_alone answering_parallelizer (table_objects list_table)"
    by (simp add: leaves_alone_def answering_parallelizer_def appending_parallelizer_def
        answering_def preserved_def)
  have run: "o_run answering_parallelizer [] list_table no_kwargs [[PInt 0]] =
     (Inr \<lparr>df_columns = [''x'', ''output_response'', ''output_error_message'',
                          ''output_error_type''],
           df_data = [[Obj 1, Imm (PStr ''ok''), Imm (PStr []), Imm (PStr [])]]\<rparr>,
      [[PInt 0], [PInt 0]])"
    by code_simp
  have object: "0 \<in> table_objects list_table"
    by (simp add: table_objects_def list_table_def)
  have allocated: "(0 :: nat) < length [[PInt 0]]" by simp
  show ?thesis
    using input_table_unchanged [OF leaves run object allocated] run by simp
qed

text \<open>
  Claim C10 as stated fails: the user function is handed the row whose cells are the
  objects of the table, and a function that appends to the list in its row has changed
  the table's list when \<^verbatim>\<open>run\<close> returns. The output row holds the deep copy, taken
  before the call.
\<close>

theorem input_table_unchanged_counterexample:
  "o_run appending_parallelizer [] list_table no_kwargs [[PInt 0]] =
     (Inr \<lparr>df_columns = [''x'', ''output_response'', ''output_error_message'',
                          ''output_error_type''],
           df_data = [[Obj 1, Imm (PStr ''ok''), Imm (PStr []), Imm (PStr [])]]\<rparr>,
      [[PInt 0, PInt 1], [PInt 0]])"
  by code_simp

end
